theory Spec2Isabelle
  imports Complex_Main
begin

section \<open>Strategy simulator (trading\_strategy.py)\<close>

text \<open>
  Prices and amounts are Python/NumPy floats in the source; they are modelled as
  real numbers, so rounding, overflow and underflow are outside the model. A
  division whose divisor is zero has no real value in the source (NumPy yields
  an infinity or a NaN, plain Python raises): such a run is the value \<open>None\<close>.
\<close>

type_synonym point = "nat \<times> real"

text \<open>
  \<open>find_local_extrema\<close>: two loops over \<open>range(1, len(forecast) - 1)\<close>; an index
  \<open>i\<close> is recorded as the pair \<open>(i + 1, forecast[i])\<close>.
\<close>

definition find_local_extrema :: "real list \<Rightarrow> point list \<times> point list" where
  "find_local_extrema forecast =
     (let local_minima =
            map (\<lambda>i. (i + 1, forecast ! i))
              (filter (\<lambda>i. forecast ! i < forecast ! (i - 1) \<and> forecast ! i < forecast ! (i + 1))
                 [1 ..< length forecast - 1]);
          local_maxima =
            map (\<lambda>i. (i + 1, forecast ! i))
              (filter (\<lambda>i. forecast ! i > forecast ! (i - 1) \<and> forecast ! i > forecast ! (i + 1))
                 [1 ..< length forecast - 1])
      in (local_minima, local_maxima))"

text \<open>The event tags \<open>'buy'\<close> and \<open>'sell'\<close> of \<open>all_events\<close>.\<close>

datatype event_action = buy | sell

type_synonym event = "nat \<times> real \<times> event_action"

text \<open>
  The three values of a trade's \<open>'action'\<close> entry, Russian strings in the source:
  "buy", "sell" and "sell (end of period)".
\<close>

datatype trade_action = Kupit | Prodat | Prodat_konec_perioda

record trade =
  day :: nat
  action :: trade_action
  price :: real
  shares :: real

text \<open>
  The returned dictionary. The early return for a forecast without extrema has
  no \<open>'buy_points'\<close> and \<open>'sell_points'\<close> entries: \<open>None\<close> there.
\<close>

record strategy =
  recommendations :: "trade list"
  total_profit :: real
  profit_percentage :: real
  final_amount :: real
  trades_count :: nat
  buy_points :: "point list option"
  sell_points :: "point list option"

text \<open>
  \<open>all_events\<close>: the buy points, then the sell points, sorted by day with
  Python's stable \<open>list.sort(key=...)\<close>.
\<close>

definition all_events :: "point list \<Rightarrow> point list \<Rightarrow> event list" where
  "all_events bps sps =
     sort_key fst (map (\<lambda>(d, p). (d, p, buy)) bps @ map (\<lambda>(d, p). (d, p, sell)) sps)"

text \<open>
  The simulation loop over \<open>all_events\<close>, on the state \<open>(cash, shares, trades)\<close>.
  The tests are the source's: \<open>shares == 0\<close> for a buy, \<open>shares > 0\<close> for a sell.
\<close>

fun simulate :: "event list \<Rightarrow> real \<times> real \<times> trade list \<Rightarrow> (real \<times> real \<times> trade list) option" where
  "simulate [] st = Some st"
| "simulate ((d, p, a) # es) (cash, sh, trades) =
     (if a = buy \<and> sh = 0 then
        (if p = 0 then None
         else simulate es
                (0, cash / p,
                 trades @ [\<lparr>day = d, action = Kupit, price = p, shares = cash / p\<rparr>]))
      else if a = sell \<and> sh > 0 then
        simulate es
          (sh * p, 0,
           trades @ [\<lparr>day = d, action = Prodat, price = p, shares = sh\<rparr>])
      else simulate es (cash, sh, trades))"

text \<open>
  After the loop: shares still held are sold at \<open>forecast[-1]\<close>, recorded at day
  \<open>len(forecast)\<close>. This code is reached only when an extremum exists, so the
  forecast is not empty there.
\<close>

definition liquidate :: "real list \<Rightarrow> real \<times> real \<times> trade list \<Rightarrow> real \<times> real \<times> trade list" where
  "liquidate forecast st =
     (case st of (cash, sh, trades) \<Rightarrow>
        if sh > 0 then
          (sh * last forecast, 0,
           trades @ [\<lparr>day = length forecast, action = Prodat_konec_perioda,
                       price = last forecast, shares = sh\<rparr>])
        else (cash, sh, trades))"

text \<open>The event list that \<open>calculate_investment_strategy\<close> builds from a forecast.\<close>

definition events_of :: "real list \<Rightarrow> event list" where
  "events_of forecast =
     (case find_local_extrema forecast of (bps, sps) \<Rightarrow> all_events bps sps)"

text \<open>The state in which the source reaches its profit computation.\<close>

definition final_state :: "real list \<Rightarrow> real \<Rightarrow> (real \<times> real \<times> trade list) option" where
  "final_state forecast investment_amount =
     map_option (liquidate forecast)
       (simulate (events_of forecast) (investment_amount, 0, []))"

definition calculate_investment_strategy :: "real \<Rightarrow> real list \<Rightarrow> real \<Rightarrow> strategy option" where
  "calculate_investment_strategy current_price forecast investment_amount =
     (case find_local_extrema forecast of (bps, sps) \<Rightarrow>
        if bps = [] \<and> sps = [] then
          Some \<lparr>recommendations = [], total_profit = 0, profit_percentage = 0,
                final_amount = investment_amount, trades_count = 0,
                buy_points = None, sell_points = None\<rparr>
        else
          (case final_state forecast investment_amount of
             None \<Rightarrow> None
           | Some (cash, sh, trades) \<Rightarrow>
               let final_amount = (if sh = 0 then cash else sh * last forecast);
                   total_profit = final_amount - investment_amount
               in if investment_amount = 0 then None
                  else Some \<lparr>recommendations = trades, total_profit = total_profit,
                             profit_percentage = (total_profit / investment_amount) * 100,
                             final_amount = final_amount, trades_count = length trades,
                             buy_points = Some bps, sell_points = Some sps\<rparr>))"

subsection \<open>The simulator as the specification words it\<close>

text \<open>
  The specification describes a machine with two states: flat, holding only
  cash, and long, holding only shares. A buy event while flat and a sell event
  while long are executed and recorded; every other event leaves the state as
  it is. A machine that is long after the last event is closed at the last
  forecast value, recorded at the last day as the end-of-period sale.
\<close>

datatype position = Flat real | Long real

fun machine_step :: "event \<Rightarrow> position \<times> trade list \<Rightarrow> position \<times> trade list" where
  "machine_step (d, p, buy) (Flat c, ts) =
     (Long (c / p), ts @ [\<lparr>day = d, action = Kupit, price = p, shares = c / p\<rparr>])"
| "machine_step (d, p, sell) (Long s, ts) =
     (Flat (s * p), ts @ [\<lparr>day = d, action = Prodat, price = p, shares = s\<rparr>])"
| "machine_step e st = st"

fun machine_close :: "real list \<Rightarrow> position \<times> trade list \<Rightarrow> position \<times> trade list" where
  "machine_close forecast (Long s, ts) =
     (Flat (s * last forecast),
      ts @ [\<lparr>day = length forecast, action = Prodat_konec_perioda,
               price = last forecast, shares = s\<rparr>])"
| "machine_close forecast (Flat c, ts) = (Flat c, ts)"

text \<open>
  A list of trade actions alternates when every buy is followed by a sale and
  every sale by a buy; \<open>expect_buy\<close> says which of the two comes first.
\<close>

fun alternates :: "bool \<Rightarrow> trade_action list \<Rightarrow> bool" where
  "alternates expect_buy [] = True"
| "alternates expect_buy (a # as) =
     ((a = Kupit) = expect_buy \<and> alternates (\<not> expect_buy) as)"

text \<open>
  Replaying a trade list against the forecast, on the pair \<open>(cash, shares)\<close>:
  the price of a trade is the forecast value of its day, a buy turns all cash
  into shares and a sale turns all shares into cash.
\<close>

fun replay :: "real list \<Rightarrow> trade list \<Rightarrow> real \<times> real \<Rightarrow> real \<times> real" where
  "replay forecast [] st = st"
| "replay forecast (t # ts) (c, s) =
     (if action t = Kupit then replay forecast ts (0, c / forecast ! (day t - 1))
      else replay forecast ts (s * forecast ! (day t - 1), 0))"

text \<open>A trade is at the forecast when its price is the forecast value of its day.\<close>

definition at_forecast :: "real list \<Rightarrow> trade \<Rightarrow> bool" where
  "at_forecast forecast t =
     (1 \<le> day t \<and> day t \<le> length forecast \<and> price t = forecast ! (day t - 1))"

text \<open>Predicates on the state of the loop, for the proofs below.\<close>

definition one_position :: "real \<times> real \<times> trade list \<Rightarrow> bool" where
  "one_position st =
     (case st of (c, s, ts) \<Rightarrow> (s = 0 \<and> 0 < c) \<or> (c = 0 \<and> 0 < s))"

definition abs_state :: "real \<times> real \<times> trade list \<Rightarrow> position \<times> trade list" where
  "abs_state st = (case st of (c, s, ts) \<Rightarrow> (if s = 0 then Flat c else Long s, ts))"

definition well_traded :: "real \<times> real \<times> trade list \<Rightarrow> bool" where
  "well_traded st =
     (case st of (c, s, ts) \<Rightarrow>
        alternates True (map action ts) \<and> (even (length ts) \<longleftrightarrow> s = 0))"

definition replays :: "real list \<Rightarrow> real \<Rightarrow> real \<times> real \<times> trade list \<Rightarrow> bool" where
  "replays forecast amt st =
     (case st of (c, s, ts) \<Rightarrow> replay forecast ts (amt, 0) = (c, s))"

section \<open>Evaluation harness (model\_evaluator.py)\<close>

datatype error = ValueError | KeyError | NotFittedError | LibraryError

text \<open>
  NumPy arrays of one dimension are lists of reals. A float that is a NaN or an
  infinity has no real value: \<open>None\<close>. \<open>np_mean\<close> of an empty array is a NaN.
\<close>

definition np_mean :: "real list \<Rightarrow> real option" where
  "np_mean xs = (if xs = [] then None else Some (sum_list xs / real (length xs)))"

text \<open>
  Broadcasting of two one-dimensional operands: equal lengths pair up, an
  operand of length one is repeated, any other pair of shapes raises.
\<close>

definition np_broadcast :: "real list \<Rightarrow> real list \<Rightarrow> error + (real \<times> real) list" where
  "np_broadcast xs ys =
     (if length xs = length ys then Inr (zip xs ys)
      else if length xs = 1 then Inr (map (\<lambda>y. (hd xs, y)) ys)
      else if length ys = 1 then Inr (map (\<lambda>x. (x, hd ys)) xs)
      else Inl ValueError)"

record metrics =
  RMSE :: "real option"
  MAE :: "real option"
  MAPE :: "real option"
  R2 :: real

text \<open>
  \<open>ss_tot\<close> of \<open>calculate_metrics\<close>: the sum over \<open>y_true\<close> of the squared
  distance to its mean; the sum over an empty array is 0.
\<close>

definition ss_tot :: "real list \<Rightarrow> real" where
  "ss_tot y_true =
     (case np_mean y_true of
        None \<Rightarrow> 0
      | Some m \<Rightarrow> sum_list (map (\<lambda>t. (t - m)\<^sup>2) y_true))"

text \<open>
  \<open>calculate_metrics\<close>. The percentage error divides by every actual value:
  where one of them is zero the quotient, and with it the mean, is a NaN or an
  infinity.
\<close>

definition calculate_metrics :: "real list \<Rightarrow> real list \<Rightarrow> error + metrics" where
  "calculate_metrics y_true y_pred =
     (case np_broadcast y_true y_pred of
        Inl e \<Rightarrow> Inl e
      | Inr pairs \<Rightarrow>
          let diff = map (\<lambda>(t, p). t - p) pairs;
              rmse = map_option sqrt (np_mean (map (\<lambda>d. d\<^sup>2) diff));
              mae = np_mean (map abs diff);
              mape = (if \<exists>(t, p)\<in>set pairs. t = 0 then None
                      else map_option (\<lambda>m. m * 100)
                             (np_mean (map (\<lambda>(t, p). \<bar>(t - p) / t\<bar>) pairs)));
              ss_res = sum_list (map (\<lambda>d. d\<^sup>2) diff);
              r2 = (if ss_tot y_true \<noteq> 0 then 1 - ss_res / ss_tot y_true else 0)
          in Inr \<lparr>RMSE = rmse, MAE = mae, MAPE = mape, R2 = r2\<rparr>)"

text \<open>
  The three model classes, in the order of the list \<open>models\<close> of
  \<open>evaluate_models\<close>, and the \<open>name\<close> attribute each constructor sets.
\<close>

datatype model = MLModel | ARIMAModel | LSTMModel

fun name :: "model \<Rightarrow> string" where
  "name MLModel = ''Random Forest''"
| "name ARIMAModel = ''ARIMA''"
| "name LSTMModel = ''LSTM''"

definition models :: "model list" where
  "models = [MLModel, ARIMAModel, LSTMModel]"

text \<open>
  What \<open>model.train(df, test_size=TEST_SIZE)\<close> does is decided by the fitting
  libraries: the harness is modelled on the outcome of each call, an exception
  or the pair \<open>(y_test, y_pred)\<close>.
\<close>

type_synonym train_outcome = "error + real list \<times> real list"

text \<open>
  Assignment to a dictionary entry: an existing key keeps its place, a new key
  goes last. Lookup of a missing key raises.
\<close>

fun dict_set :: "('k \<times> 'v) list \<Rightarrow> 'k \<Rightarrow> 'v \<Rightarrow> ('k \<times> 'v) list" where
  "dict_set [] k v = [(k, v)]"
| "dict_set ((k', v') # kvs) k v =
     (if k' = k then (k, v) # kvs else (k', v') # dict_set kvs k v)"

definition dict_get :: "('k \<times> 'v) list \<Rightarrow> 'k \<Rightarrow> error + 'v" where
  "dict_get kvs k = (case map_of kvs k of None \<Rightarrow> Inl KeyError | Some v \<Rightarrow> Inr v)"

text \<open>The loop of \<open>evaluate_models\<close>: a model whose \<open>try\<close> body raises is skipped.\<close>

fun evaluate_loop ::
  "(model \<Rightarrow> train_outcome) \<Rightarrow> model list \<Rightarrow> (string \<times> model \<times> metrics) list \<Rightarrow>
   (string \<times> model \<times> metrics) list" where
  "evaluate_loop train [] results = results"
| "evaluate_loop train (m # ms) results =
     (case train m of
        Inl e \<Rightarrow> evaluate_loop train ms results
      | Inr (y_test, y_pred) \<Rightarrow>
          (case calculate_metrics y_test y_pred of
             Inl e \<Rightarrow> evaluate_loop train ms results
           | Inr mt \<Rightarrow> evaluate_loop train ms (dict_set results (name m) (m, mt))))"

text \<open>
  Python's \<open><\<close> on two floats is false when either is a NaN. \<open>min\<close> with a key
  keeps the first element unless a later one has a strictly smaller key.
\<close>

definition py_less :: "real option \<Rightarrow> real option \<Rightarrow> bool" where
  "py_less a b = (case (a, b) of (Some x, Some y) \<Rightarrow> x < y | _ \<Rightarrow> False)"

fun py_min :: "('a \<Rightarrow> real option) \<Rightarrow> 'a \<Rightarrow> 'a list \<Rightarrow> 'a" where
  "py_min key best [] = best"
| "py_min key best (x # xs) = py_min key (if py_less (key x) (key best) then x else best) xs"

definition rmse_of :: "(string \<times> model \<times> metrics) list \<Rightarrow> string \<Rightarrow> real option" where
  "rmse_of results k = (case map_of results k of None \<Rightarrow> None | Some (m, mt) \<Rightarrow> RMSE mt)"

text \<open>
  \<open>evaluate_models\<close>, on the three outcomes of \<open>train\<close>. It returns the best
  model, its name, its metrics and \<open>all_metrics\<close>.
\<close>

fun train_of :: "train_outcome \<Rightarrow> train_outcome \<Rightarrow> train_outcome \<Rightarrow> model \<Rightarrow> train_outcome" where
  "train_of ml arima lstm MLModel = ml"
| "train_of ml arima lstm ARIMAModel = arima"
| "train_of ml arima lstm LSTMModel = lstm"

definition evaluate_models ::
  "train_outcome \<Rightarrow> train_outcome \<Rightarrow> train_outcome \<Rightarrow>
   error + model \<times> string \<times> metrics \<times> (string \<times> metrics) list" where
  "evaluate_models ml arima lstm =
     (let train = train_of ml arima lstm;
          results = evaluate_loop train models [];
          all_metrics = map (\<lambda>(k, m, mt). (k, mt)) results
      in (case map fst results of
            [] \<Rightarrow> Inl ValueError
          | k # ks \<Rightarrow>
              (let best_model_name = py_min (rmse_of results) k ks
               in (case dict_get results best_model_name of
                     Inl e \<Rightarrow> Inl e
                   | Inr (best_model, best_metrics) \<Rightarrow>
                       Inr (best_model, best_model_name, best_metrics, all_metrics)))))"

subsection \<open>Notions for the statements about the harness\<close>

text \<open>
  The result of the \<open>try\<close> body for one model: its metrics, or \<open>None\<close> when
  \<open>train\<close> or \<open>calculate_metrics\<close> raised.
\<close>

definition score :: "train_outcome \<Rightarrow> metrics option" where
  "score outcome =
     (case outcome of
        Inl e \<Rightarrow> None
      | Inr (y_test, y_pred) \<Rightarrow>
          (case calculate_metrics y_test y_pred of Inl e \<Rightarrow> None | Inr mt \<Rightarrow> Some mt))"

text \<open>
  Every \<open>train\<close> of the source returns the held-out values and as many
  predictions; \<open>held_out\<close> adds that the held-out segment is not empty.
\<close>

definition same_span :: "train_outcome \<Rightarrow> bool" where
  "same_span outcome =
     (case outcome of Inl e \<Rightarrow> True | Inr (y_test, y_pred) \<Rightarrow> length y_test = length y_pred)"

definition held_out :: "train_outcome \<Rightarrow> bool" where
  "held_out outcome =
     (case outcome of
        Inl e \<Rightarrow> True
      | Inr (y_test, y_pred) \<Rightarrow> y_test \<noteq> [] \<and> length y_test = length y_pred)"

text \<open>The place of a model in the list \<open>models\<close>.\<close>

definition place :: "model \<Rightarrow> nat" where
  "place m = length (takeWhile (\<lambda>x. x \<noteq> m) models)"

section \<open>Statistical model (models/arima\_model.py)\<close>

text \<open>
  Fitting and forecasting are done by the statsmodels library. A fit is
  requested for a configuration: an ARIMA order, or exponential smoothing with
  its \<open>trend\<close> and \<open>seasonal\<close> arguments. The library is a parameter \<open>lib\<close>
  of the model: \<open>lib cfg data steps\<close> is the forecast of \<open>steps\<close> values by the
  configuration \<open>cfg\<close> fitted on \<open>data\<close>, or the exception the fit or the
  forecast raises.
\<close>

type_synonym arima_order = "nat \<times> nat \<times> nat"

datatype fit_config = ARIMA arima_order | ExponentialSmoothing string "string option"

type_synonym fit_library = "fit_config \<Rightarrow> real list \<Rightarrow> int \<Rightarrow> error + real list"

text \<open>The attribute \<open>self.order\<close> of an instance, and the constructor's default.\<close>

record arima_model =
  order :: arima_order

definition ARIMAModel_init :: arima_model where
  "ARIMAModel_init = \<lparr>order = (5, 1, 0)\<rparr>"

text \<open>
  Python's \<open>int\<close> of a float truncates towards zero; a slice bound below zero
  counts from the end of the list.
\<close>

definition py_int :: "real \<Rightarrow> int" where
  "py_int x = (if 0 \<le> x then \<lfloor>x\<rfloor> else \<lceil>x\<rceil>)"

definition slice_to :: "int \<Rightarrow> 'a list \<Rightarrow> 'a list" where
  "slice_to k xs = (if 0 \<le> k then take (nat k) xs else take (length xs - nat (- k)) xs)"

definition slice_from :: "int \<Rightarrow> 'a list \<Rightarrow> 'a list" where
  "slice_from k xs = (if 0 \<le> k then drop (nat k) xs else drop (length xs - nat (- k)) xs)"

text \<open>The chronological split of \<open>train\<close>: the leading and the trailing segment.\<close>

definition train_part :: "real list \<Rightarrow> real \<Rightarrow> real list" where
  "train_part prices test_size =
     slice_to (py_int (real (length prices) * (1 - test_size))) prices"

definition test_part :: "real list \<Rightarrow> real \<Rightarrow> real list" where
  "test_part prices test_size =
     slice_from (py_int (real (length prices) * (1 - test_size))) prices"

text \<open>
  \<open>ARIMAModel.train\<close>. The model returns the instance as the call leaves it,
  the configurations whose fit was requested, in the order of the requests, and
  the outcome: the pair \<open>(test_data, forecast)\<close> or the exception.
\<close>

definition arima_train ::
  "fit_library \<Rightarrow> arima_model \<Rightarrow> real list \<Rightarrow> real \<Rightarrow>
   arima_model \<times> fit_config list \<times> train_outcome" where
  "arima_train lib self prices test_size =
     (let train_data = train_part prices test_size;
          test_data = test_part prices test_size
      in (case lib (ARIMA (order self)) train_data (int (length test_data)) of
            Inr forecast \<Rightarrow> (self, [ARIMA (order self)], Inr (test_data, forecast))
          | Inl e \<Rightarrow>
              (let self1 = self\<lparr>order := (1, 1, 1)\<rparr>
               in (case lib (ARIMA (order self1)) train_data (int (length test_data)) of
                     Inr forecast \<Rightarrow>
                       (self1, [ARIMA (order self), ARIMA (order self1)],
                        Inr (test_data, forecast))
                   | Inl e2 \<Rightarrow>
                       (self1, [ARIMA (order self), ARIMA (order self1)], Inl ValueError)))))"

text \<open>
  \<open>ARIMAModel.predict\<close>, with the same three results. An exception of the last
  fallback is not caught.
\<close>

definition arima_predict ::
  "fit_library \<Rightarrow> arima_model \<Rightarrow> real list \<Rightarrow> int \<Rightarrow>
   arima_model \<times> fit_config list \<times> (error + real list)" where
  "arima_predict lib self prices days =
     (case lib (ARIMA (order self)) prices days of
        Inr forecast \<Rightarrow> (self, [ARIMA (order self)], Inr forecast)
      | Inl e \<Rightarrow>
          (let self1 = self\<lparr>order := (1, 1, 1)\<rparr>
           in (case lib (ARIMA (order self1)) prices days of
                 Inr forecast \<Rightarrow> (self1, [ARIMA (order self), ARIMA (order self1)], Inr forecast)
               | Inl e2 \<Rightarrow>
                   (self1,
                    [ARIMA (order self), ARIMA (order self1),
                     ExponentialSmoothing ''add'' None],
                    lib (ExponentialSmoothing ''add'' None) prices days))))"

text \<open>
  A fitting library for the examples: it cannot fit the order (5, 1, 0) and
  forecasts the last value of the data with every other configuration.
\<close>

definition rejects_default :: fit_library where
  "rejects_default cfg data steps =
     (if cfg = ARIMA (5, 1, 0) then Inl LibraryError
      else Inr (replicate (nat steps) (last data)))"

text \<open>
  The fallback chain as the specification words it: a list of configurations
  tried in order, each only if the one before raised; the outcome is that of
  the last one tried. The result pairs the configurations tried with the
  outcome.
\<close>

fun fallback_chain ::
  "(fit_config \<Rightarrow> error + 'a) \<Rightarrow> fit_config list \<Rightarrow> fit_config list \<times> (error + 'a)" where
  "fallback_chain run [] = ([], Inl ValueError)"
| "fallback_chain run [c] = ([c], run c)"
| "fallback_chain run (c # cs) =
     (case run c of
        Inr r \<Rightarrow> ([c], Inr r)
      | Inl e \<Rightarrow> (case fallback_chain run cs of (tried, res) \<Rightarrow> (c # tried, res)))"

section \<open>Tree-ensemble model (models/ml\_model.py)\<close>

text \<open>
  The data frame is modelled by its \<open>Price\<close> column; the \<open>Date\<close> column is not
  used by the model. A row of engineered features is the list of its values in
  the order of their creation: \<open>lag_1\<close>, ..., \<open>lag_10\<close>, \<open>ma_7\<close>, \<open>ma_30\<close>,
  \<open>std_7\<close>, \<open>momentum\<close>, \<open>roc\<close>.
\<close>

definition rolling_mean :: "nat \<Rightarrow> real list \<Rightarrow> nat \<Rightarrow> real" where
  "rolling_mean window prices t =
     sum_list (map (\<lambda>i. prices ! i) [t + 1 - window ..< t + 1]) / real window"

text \<open>The rolling standard deviation of pandas is the sample one (one degree of freedom less).\<close>

definition rolling_std :: "nat \<Rightarrow> real list \<Rightarrow> nat \<Rightarrow> real" where
  "rolling_std window prices t =
     sqrt (sum_list (map (\<lambda>i. (prices ! i - rolling_mean window prices t)\<^sup>2)
                       [t + 1 - window ..< t + 1]) / real (window - 1))"

definition feature_row :: "nat \<Rightarrow> real list \<Rightarrow> nat \<Rightarrow> real list" where
  "feature_row lags prices t =
     map (\<lambda>i. prices ! (t - i)) [1 ..< lags + 1] @
     [rolling_mean 7 prices t, rolling_mean 30 prices t, rolling_std 7 prices t,
      prices ! t - prices ! (t - 5),
      (prices ! t - prices ! (t - 5)) / prices ! (t - 5) * 100]"

text \<open>
  \<open>create_features\<close>: a row is undefined somewhere, and dropped, unless its
  index is at least the lag count and at least 29. The rate of change divides
  by the price five steps earlier. Where that price is zero pandas yields a NaN
  or an infinity, which this model does not follow: the result is \<open>None\<close>.
  A kept row is the pair of its price and its features.
\<close>

definition create_features :: "real list \<Rightarrow> nat \<Rightarrow> (real \<times> real list) list option" where
  "create_features prices lags =
     (let kept = [max lags 29 ..< length prices]
      in if \<exists>t\<in>set kept. prices ! (t - 5) = 0 then None
         else Some (map (\<lambda>t. (prices ! t, feature_row lags prices t)) kept))"

text \<open>
  \<open>StandardScaler\<close> of scikit-learn, by its documented behaviour: \<open>fit\<close> stores
  the mean of every column and its standard deviation (of the population), 1
  in place of a deviation of zero; \<open>transform\<close> subtracts the mean and divides
  by the stored deviation. Both raise on an array without rows, \<open>transform\<close>
  also on rows of another width.
\<close>

text \<open>The fields are the attributes \<open>mean_\<close> and \<open>scale_\<close> of the fitted scaler.\<close>

record scaler_state =
  scaler_mean :: "real list"
  scaler_scale :: "real list"

definition column :: "real list list \<Rightarrow> nat \<Rightarrow> real list" where
  "column X j = map (\<lambda>row. row ! j) X"

definition column_mean :: "real list list \<Rightarrow> nat \<Rightarrow> real" where
  "column_mean X j = sum_list (column X j) / real (length X)"

definition column_var :: "real list list \<Rightarrow> nat \<Rightarrow> real" where
  "column_var X j =
     sum_list (map (\<lambda>x. (x - column_mean X j)\<^sup>2) (column X j)) / real (length X)"

definition scaler_fit :: "real list list \<Rightarrow> error + scaler_state" where
  "scaler_fit X =
     (case X of
        [] \<Rightarrow> Inl ValueError
      | row # rows \<Rightarrow>
          Inr \<lparr>scaler_mean = map (column_mean X) [0 ..< length row],
               scaler_scale = map (\<lambda>j. if column_var X j = 0 then 1 else sqrt (column_var X j))
                          [0 ..< length row]\<rparr>)"

definition scale_row :: "scaler_state \<Rightarrow> real list \<Rightarrow> real list" where
  "scale_row sc row = map (\<lambda>(x, m, s). (x - m) / s) (zip row (zip (scaler_mean sc) (scaler_scale sc)))"

definition scaler_transform :: "scaler_state \<Rightarrow> real list list \<Rightarrow> error + real list list" where
  "scaler_transform sc X =
     (if X = [] \<or> (\<exists>row\<in>set X. length row \<noteq> length (scaler_mean sc)) then Inl ValueError
      else Inr (map (scale_row sc) X))"

text \<open>
  The random forest is library code: a fitted forest is the function from a
  scaled feature row to its prediction, and fitting is a parameter \<open>rf_fit\<close>
  that returns the fitted forest or the exception raised.
\<close>

type_synonym forest = "real list \<Rightarrow> real"

type_synonym forest_library = "real list list \<Rightarrow> real list \<Rightarrow> error + forest"

text \<open>
  The attributes \<open>self.scaler\<close> and \<open>self.model\<close>, \<open>None\<close> while not fitted.
\<close>

record ml_model =
  scaler :: "scaler_state option"
  model :: "forest option"

definition MLModel_init :: ml_model where
  "MLModel_init = \<lparr>scaler = None, model = None\<rparr>"

text \<open>
  \<open>MLModel.train\<close>: the instance as the call leaves it, and the outcome. A
  \<open>fit\<close> that raises leaves the scaler unfitted.
\<close>

definition ml_train ::
  "forest_library \<Rightarrow> ml_model \<Rightarrow> real list \<Rightarrow> real \<Rightarrow> (ml_model \<times> train_outcome) option" where
  "ml_train rf_fit self df test_size =
     (case create_features df 10 of
        None \<Rightarrow> None
      | Some data \<Rightarrow>
          Some
            (let X = map snd data;
                 y = map fst data;
                 split_idx = py_int (real (length X) * (1 - test_size));
                 X_train = slice_to split_idx X;
                 X_test = slice_from split_idx X;
                 y_train = slice_to split_idx y;
                 y_test = slice_from split_idx y
             in (case scaler_fit X_train of
                   Inl e \<Rightarrow> (self\<lparr>scaler := None\<rparr>, Inl e)
                 | Inr sc \<Rightarrow>
                     (let self1 = self\<lparr>scaler := Some sc\<rparr>
                      in (case scaler_transform sc X_train of
                            Inl e \<Rightarrow> (self1, Inl e)
                          | Inr X_train_scaled \<Rightarrow>
                              (case scaler_transform sc X_test of
                                 Inl e \<Rightarrow> (self1, Inl e)
                               | Inr X_test_scaled \<Rightarrow>
                                   (case rf_fit X_train_scaled y_train of
                                      Inl e \<Rightarrow> (self1, Inl e)
                                    | Inr f \<Rightarrow>
                                        (self1\<lparr>model := Some f\<rparr>,
                                         Inr (y_test, map f X_test_scaled)))))))))"

text \<open>
  The update of the lag columns in \<open>predict\<close>: for \<open>i\<close> from 10 down to 2 the
  column \<open>lag_i\<close> takes the value of \<open>lag_{i-1}\<close>, then \<open>lag_1\<close> takes the new
  price. The column \<open>lag_i\<close> is at index \<open>i - 1\<close>.
\<close>

definition shift_lags :: "real list \<Rightarrow> real \<Rightarrow> real list" where
  "shift_lags row next_price =
     (fold (\<lambda>i r. r[i - 1 := r ! (i - 2)]) (rev [2 ..< 11]) row)[0 := next_price]"

text \<open>
  The loop of \<open>predict\<close> on \<open>last_data\<close>, a frame of one row, or of none when no
  feature row exists. Every pass scales the frame with \<open>self.scaler\<close> and
  predicts with \<open>self.model\<close>; neither is assigned in \<open>predict\<close>.
\<close>

fun predict_loop :: "ml_model \<Rightarrow> real list list \<Rightarrow> nat \<Rightarrow> error + real list" where
  "predict_loop self last_data 0 = Inr []"
| "predict_loop self last_data (Suc n) =
     (case scaler self of
        None \<Rightarrow> Inl NotFittedError
      | Some sc \<Rightarrow>
          (case scaler_transform sc last_data of
             Inl e \<Rightarrow> Inl e
           | Inr X_scaled \<Rightarrow>
               (case model self of
                  None \<Rightarrow> Inl NotFittedError
                | Some f \<Rightarrow>
                    (case X_scaled of
                       [] \<Rightarrow> Inl ValueError
                     | x # xs \<Rightarrow>
                         (let next_price = f x
                          in (case predict_loop self
                                     (map (\<lambda>row. shift_lags row next_price) last_data) n of
                                Inl e \<Rightarrow> Inl e
                              | Inr predictions \<Rightarrow> Inr (next_price # predictions)))))))"

definition ml_predict :: "ml_model \<Rightarrow> real list \<Rightarrow> int \<Rightarrow> (error + real list) option" where
  "ml_predict self df days =
     (case create_features df 10 of
        None \<Rightarrow> None
      | Some data \<Rightarrow> Some (predict_loop self (slice_from (- 1) (map snd data)) (nat days)))"

text \<open>
  The pipeline of \<open>main.py\<close> for this model: a new instance is trained on the
  series, and the forecast is made by the same instance on the same series.
\<close>

definition train_then_predict ::
  "forest_library \<Rightarrow> real list \<Rightarrow> real \<Rightarrow> int \<Rightarrow> (error + real list) option" where
  "train_then_predict rf_fit df test_size days =
     (case ml_train rf_fit MLModel_init df test_size of
        None \<Rightarrow> None
      | Some (self, Inl e) \<Rightarrow> Some (Inl e)
      | Some (self, Inr out) \<Rightarrow> ml_predict self df days)"

subsection \<open>The rollout as the specification words it\<close>

text \<open>
  At each step the current feature row is scaled, one price is predicted, the
  prediction becomes the new first lag and the other lags move one place; the
  features after the lags stay as they are.
\<close>

fun rollout :: "scaler_state \<Rightarrow> forest \<Rightarrow> real list \<Rightarrow> nat \<Rightarrow> real list" where
  "rollout sc f row 0 = []"
| "rollout sc f row (Suc n) =
     (let p = f (scale_row sc row) in p # rollout sc f (p # take 9 row @ drop 10 row) n)"

text \<open>
  The forecast the specification describes: the rollout with the forest of
  \<open>train\<close> and a scaler fitted again on the feature rows of the whole series.
\<close>

definition refit_rollout ::
  "forest_library \<Rightarrow> real list \<Rightarrow> real \<Rightarrow> int \<Rightarrow> (error + real list) option" where
  "refit_rollout rf_fit df test_size days =
     (case ml_train rf_fit MLModel_init df test_size of
        None \<Rightarrow> None
      | Some (self, Inl e) \<Rightarrow> Some (Inl e)
      | Some (self, Inr out) \<Rightarrow>
          (case (model self, create_features df 10) of
             (Some f, Some data) \<Rightarrow>
               (case scaler_fit (map snd data) of
                  Inl e \<Rightarrow> Some (Inl e)
                | Inr sc \<Rightarrow> Some (Inr (rollout sc f (snd (last data)) (nat days))))
           | _ \<Rightarrow> None))"

text \<open>
  For the examples: a series of 31 prices of 1 followed by 3, 10, 2 and 3, and
  a library whose fitted forest is one split on the scaled first lag.
\<close>

definition example_series :: "real list" where
  "example_series = replicate 31 1 @ [3, 10, 2, 3]"

definition stump :: forest where
  "stump row = (if row ! 0 \<le> 0 then 5 else 7)"

definition stump_library :: forest_library where
  "stump_library X y = Inr stump"

section \<open>Float operations as parameters\<close>

text \<open>
  The models above compute in the reals. A Python float is one of finitely many
  reals, and an operation on floats returns the float next to the exact
  result: a quotient of two positive floats can be zero, and the mean of equal
  floats can differ from them. Where a statement depends on this, the float
  operations are parameters of the model. Each takes the reals its operands
  denote and returns the real its result denotes, or \<open>None\<close> when the result is
  a NaN or an infinity; the model does not follow a run past such a result.
  Nothing is assumed of the operations but what a theorem states. Comparisons
  of floats and the absolute value are exact.
\<close>

record arith =
  fsub :: "real \<Rightarrow> real \<Rightarrow> real option"
  fmul :: "real \<Rightarrow> real \<Rightarrow> real option"
  fdiv :: "real \<Rightarrow> real \<Rightarrow> real option"
  fsq :: "real \<Rightarrow> real option"
  fsqrt :: "real \<Rightarrow> real option"
  fsum :: "real list \<Rightarrow> real option"
  fmean :: "real list \<Rightarrow> real option"

text \<open>The operations without rounding, for the examples.\<close>

definition exact :: arith where
  "exact =
     \<lparr>fsub = (\<lambda>a b. Some (a - b)),
      fmul = (\<lambda>a b. Some (a * b)),
      fdiv = (\<lambda>a b. if b = 0 then None else Some (a / b)),
      fsq = (\<lambda>a. Some (a\<^sup>2)),
      fsqrt = (\<lambda>a. if a < 0 then None else Some (sqrt a)),
      fsum = (\<lambda>xs. Some (sum_list xs)),
      fmean = (\<lambda>xs. if xs = [] then None else Some (sum_list xs / real (length xs)))\<rparr>"

text \<open>
  For the examples: operations that are exact, except that a quotient or a
  product of magnitude at most 2 to the power -1075, half the least positive
  float, is zero, as it is for the floats.
\<close>

definition underflow :: "real \<Rightarrow> real" where
  "underflow x = (if \<bar>x\<bar> \<le> 1 / 2 ^ 1075 then 0 else x)"

definition exact_with_underflow :: arith where
  "exact_with_underflow =
     exact\<lparr>fmul := (\<lambda>a b. Some (underflow (a * b))),
           fdiv := (\<lambda>a b. if b = 0 then None else Some (underflow (a / b)))\<rparr>"

subsection \<open>Strategy simulator\<close>

text \<open>
  The loop of \<open>calculate_investment_strategy\<close> with the quotient \<open>cash / price\<close>
  and the product \<open>shares * price\<close> as the floats compute them.
\<close>

fun simulate_float ::
  "arith \<Rightarrow> event list \<Rightarrow> real \<times> real \<times> trade list \<Rightarrow> (real \<times> real \<times> trade list) option" where
  "simulate_float A [] st = Some st"
| "simulate_float A ((d, p, a) # es) (cash, sh, trades) =
     (if a = buy \<and> sh = 0 then
        (case fdiv A cash p of
           None \<Rightarrow> None
         | Some q \<Rightarrow>
             simulate_float A es
               (0, q, trades @ [\<lparr>day = d, action = Kupit, price = p, shares = q\<rparr>]))
      else if a = sell \<and> sh > 0 then
        (case fmul A sh p of
           None \<Rightarrow> None
         | Some c \<Rightarrow>
             simulate_float A es
               (c, 0, trades @ [\<lparr>day = d, action = Prodat, price = p, shares = sh\<rparr>]))
      else simulate_float A es (cash, sh, trades))"

definition liquidate_float ::
  "arith \<Rightarrow> real list \<Rightarrow> real \<times> real \<times> trade list \<Rightarrow> (real \<times> real \<times> trade list) option" where
  "liquidate_float A forecast st =
     (case st of (cash, sh, trades) \<Rightarrow>
        if sh > 0 then
          (case fmul A sh (last forecast) of
             None \<Rightarrow> None
           | Some c \<Rightarrow>
               Some (c, 0,
                     trades @ [\<lparr>day = length forecast, action = Prodat_konec_perioda,
                                 price = last forecast, shares = sh\<rparr>]))
        else Some (cash, sh, trades))"

definition final_state_float ::
  "arith \<Rightarrow> real list \<Rightarrow> real \<Rightarrow> (real \<times> real \<times> trade list) option" where
  "final_state_float A forecast investment_amount =
     (case simulate_float A (events_of forecast) (investment_amount, 0, []) of
        None \<Rightarrow> None
      | Some st \<Rightarrow> liquidate_float A forecast st)"

text \<open>
  The profit computation: \<open>final_amount\<close>, \<open>total_profit\<close> and
  \<open>profit_percentage\<close>, in the order of the source.
\<close>

definition report_float ::
  "arith \<Rightarrow> real list \<Rightarrow> real \<Rightarrow> point list \<Rightarrow> point list \<Rightarrow> real \<times> real \<times> trade list \<Rightarrow>
   strategy option" where
  "report_float A forecast investment_amount bps sps st =
     (case st of (cash, sh, trades) \<Rightarrow>
        (case (if sh = 0 then Some cash else fmul A sh (last forecast)) of
           None \<Rightarrow> None
         | Some amount \<Rightarrow>
             (case fsub A amount investment_amount of
                None \<Rightarrow> None
              | Some profit \<Rightarrow>
                  (case fdiv A profit investment_amount of
                     None \<Rightarrow> None
                   | Some ratio \<Rightarrow>
                       (case fmul A ratio 100 of
                          None \<Rightarrow> None
                        | Some percentage \<Rightarrow>
                            Some \<lparr>recommendations = trades, total_profit = profit,
                                  profit_percentage = percentage,
                                  final_amount = amount, trades_count = length trades,
                                  buy_points = Some bps, sell_points = Some sps\<rparr>)))))"

definition calculate_investment_strategy_float ::
  "arith \<Rightarrow> real \<Rightarrow> real list \<Rightarrow> real \<Rightarrow> strategy option" where
  "calculate_investment_strategy_float A current_price forecast investment_amount =
     (case find_local_extrema forecast of (bps, sps) \<Rightarrow>
        if bps = [] \<and> sps = [] then
          Some \<lparr>recommendations = [], total_profit = 0, profit_percentage = 0,
                final_amount = investment_amount, trades_count = 0,
                buy_points = None, sell_points = None\<rparr>
        else
          (case final_state_float A forecast investment_amount of
             None \<Rightarrow> None
           | Some st \<Rightarrow> report_float A forecast investment_amount bps sps st))"

text \<open>
  The two-state machine of the specification with the same float operations:
  it keeps its state, flat or long, whatever the amounts are. Closed, it
  returns its cash and its trades.
\<close>

fun machine_step_float ::
  "arith \<Rightarrow> event \<Rightarrow> position \<times> trade list \<Rightarrow> (position \<times> trade list) option" where
  "machine_step_float A (d, p, buy) (Flat c, ts) =
     (case fdiv A c p of
        None \<Rightarrow> None
      | Some q \<Rightarrow> Some (Long q, ts @ [\<lparr>day = d, action = Kupit, price = p, shares = q\<rparr>]))"
| "machine_step_float A (d, p, sell) (Long s, ts) =
     (case fmul A s p of
        None \<Rightarrow> None
      | Some c \<Rightarrow> Some (Flat c, ts @ [\<lparr>day = d, action = Prodat, price = p, shares = s\<rparr>]))"
| "machine_step_float A e st = Some st"

fun machine_run_float ::
  "arith \<Rightarrow> event list \<Rightarrow> position \<times> trade list \<Rightarrow> (position \<times> trade list) option" where
  "machine_run_float A [] st = Some st"
| "machine_run_float A (e # es) st =
     (case machine_step_float A e st of
        None \<Rightarrow> None
      | Some st1 \<Rightarrow> machine_run_float A es st1)"

fun machine_close_float ::
  "arith \<Rightarrow> real list \<Rightarrow> position \<times> trade list \<Rightarrow> (real \<times> trade list) option" where
  "machine_close_float A forecast (Long s, ts) =
     (case fmul A s (last forecast) of
        None \<Rightarrow> None
      | Some c \<Rightarrow>
          Some (c, ts @ [\<lparr>day = length forecast, action = Prodat_konec_perioda,
                          price = last forecast, shares = s\<rparr>]))"
| "machine_close_float A forecast (Flat c, ts) = Some (c, ts)"

definition machine_float :: "arith \<Rightarrow> real list \<Rightarrow> real \<Rightarrow> (real \<times> trade list) option" where
  "machine_float A forecast investment_amount =
     (case machine_run_float A (events_of forecast) (Flat investment_amount, []) of
        None \<Rightarrow> None
      | Some st \<Rightarrow> machine_close_float A forecast st)"

text \<open>Every buy of a trade list bought a positive number of shares.\<close>

definition buys_positive :: "trade list \<Rightarrow> bool" where
  "buys_positive ts = (\<forall>t\<in>set ts. action t = Kupit \<longrightarrow> 0 < shares t)"

text \<open>A state of the loop that holds one position and whose trades alternate.\<close>

definition settled :: "real \<times> real \<times> trade list \<Rightarrow> bool" where
  "settled st =
     (case st of (c, s, ts) \<Rightarrow>
        (s = 0 \<or> (c = 0 \<and> 0 < s)) \<and>
        alternates True (map action ts) \<and> (even (length ts) \<longleftrightarrow> s = 0))"

subsection \<open>Metrics\<close>

text \<open>
  \<open>calculate_metrics\<close> with every float operation a parameter. An operation on
  an array is the operation on each entry; \<open>those\<close> gives the array when every
  entry has a value.
\<close>

record float_metrics =
  f_RMSE :: "real option"
  f_MAE :: "real option"
  f_MAPE :: "real option"
  f_R2 :: "real option"

definition squared_deviation :: "arith \<Rightarrow> real option \<Rightarrow> real \<Rightarrow> real option" where
  "squared_deviation A m t =
     (case m of
        None \<Rightarrow> None
      | Some mean \<Rightarrow> (case fsub A t mean of None \<Rightarrow> None | Some d \<Rightarrow> fsq A d))"

definition ss_tot_float :: "arith \<Rightarrow> real list \<Rightarrow> real option" where
  "ss_tot_float A y_true =
     (case those (map (squared_deviation A (fmean A y_true)) y_true) of
        None \<Rightarrow> None
      | Some sq \<Rightarrow> fsum A sq)"

definition percentage_errors :: "arith \<Rightarrow> real list \<Rightarrow> (real \<times> real) list \<Rightarrow> real list option" where
  "percentage_errors A diff pairs =
     those (map (\<lambda>(d, t, p). map_option abs (fdiv A d t)) (zip diff pairs))"

definition calculate_metrics_float :: "arith \<Rightarrow> real list \<Rightarrow> real list \<Rightarrow> error + float_metrics" where
  "calculate_metrics_float A y_true y_pred =
     (case np_broadcast y_true y_pred of
        Inl e \<Rightarrow> Inl e
      | Inr pairs \<Rightarrow>
          (let diff = those (map (\<lambda>(t, p). fsub A t p) pairs);
               squares = Option.bind diff (\<lambda>ds. those (map (fsq A) ds));
               rmse = Option.bind (Option.bind squares (fmean A)) (fsqrt A);
               mae = Option.bind diff (\<lambda>ds. fmean A (map abs ds));
               mape = Option.bind
                        (Option.bind (Option.bind diff (\<lambda>ds. percentage_errors A ds pairs))
                           (fmean A))
                        (\<lambda>m. fmul A m 100);
               ss_res = Option.bind squares (fsum A);
               r2 = (case ss_tot_float A y_true of
                       None \<Rightarrow> None
                     | Some st \<Rightarrow>
                         if st \<noteq> 0 then
                           Option.bind (Option.bind ss_res (\<lambda>sr. fdiv A sr st)) (fsub A 1)
                         else Some 0)
           in Inr \<lparr>f_RMSE = rmse, f_MAE = mae, f_MAPE = mape, f_R2 = r2\<rparr>))"


section \<open>Properties of the strategy simulator\<close>


lemma extrema_point:
  assumes "(d, v) \<in> set (fst (find_local_extrema forecast)) \<union> set (snd (find_local_extrema forecast))"
  shows "2 \<le> d \<and> d < length forecast \<and> v = forecast ! (d - 1)"
  using assms by (auto simp: find_local_extrema_def Let_def)

lemma set_all_events:
  "set (all_events bps sps) = (\<lambda>(d, p). (d, p, buy)) ` set bps \<union> (\<lambda>(d, p). (d, p, sell)) ` set sps"
  by (simp add: all_events_def)

lemma event_point:
  assumes "(d, p, a) \<in> set (events_of forecast)"
  shows "2 \<le> d \<and> d < length forecast \<and> p = forecast ! (d - 1)"
proof -
  obtain bps sps where e: "find_local_extrema forecast = (bps, sps)" by (cases "find_local_extrema forecast")
  from assms e have "(d, p) \<in> set bps \<union> set sps"
    by (auto simp: events_of_def set_all_events)
  with e extrema_point[of d p forecast] show ?thesis by simp
qed

lemma event_price_pos:
  assumes "\<forall>p\<in>set forecast. 0 < p" "(d, p, a) \<in> set (events_of forecast)"
  shows "0 < p"
proof -
  from event_point[OF assms(2)] have "d - 1 < length forecast" "p = forecast ! (d - 1)" by auto
  with assms(1) show ?thesis by (metis nth_mem)
qed

lemma extrema_days_distinct:
  "distinct (map fst (fst (find_local_extrema forecast)) @ map fst (snd (find_local_extrema forecast)))"
  by (auto simp: find_local_extrema_def Let_def distinct_map inj_on_def comp_def)

lemma distinct_map_sort_key:
  assumes "distinct (map f xs)"
  shows "distinct (map f (sort_key g xs))"
proof -
  have s: "set (map f (sort_key g xs)) = set (map f xs)" by simp
  have l: "length (map f (sort_key g xs)) = length (map f xs)" by simp
  from assms have "card (set (map f xs)) = length (map f xs)" by (rule distinct_card)
  then have "card (set (map f (sort_key g xs))) = length (map f (sort_key g xs))"
    unfolding s l .
  then show ?thesis by (rule card_distinct)
qed

lemma events_strictly_chronological:
  "sorted_wrt (<) (map fst (events_of forecast))"
proof -
  obtain bps sps where e: "find_local_extrema forecast = (bps, sps)" by (cases "find_local_extrema forecast")
  let ?xs = "map (\<lambda>(d, p). (d, p, buy)) bps @ map (\<lambda>(d, p). (d, p, sell)) sps"
  have m: "map fst ?xs = map fst bps @ map fst sps" by (auto simp: comp_def case_prod_beta)
  have "distinct (map fst ?xs)" using extrema_days_distinct[of forecast] e unfolding m by simp
  then have "distinct (map fst (sort_key fst ?xs))" by (rule distinct_map_sort_key)
  moreover have "sorted (map fst (sort_key fst ?xs))" by simp
  ultimately show ?thesis using e by (simp add: events_of_def all_events_def strict_sorted_iff)
qed



lemma alternates_snoc:
  "alternates b (as @ [a]) \<longleftrightarrow> alternates b as \<and> ((a = Kupit) = (b = even (length as)))"
  by (induction as arbitrary: b) auto

lemma simulate_runs:
  assumes "\<forall>(d, p, a)\<in>set es. 0 < p" "one_position st"
  shows "\<exists>st'. simulate es st = Some st' \<and> one_position st' \<and>
           abs_state st' = fold machine_step es (abs_state st) \<and>
           (well_traded st \<longrightarrow> well_traded st')"
  using assms
proof (induction es arbitrary: st)
  case Nil
  then show ?case by simp
next
  case (Cons e es)
  obtain d p a where e: "e = (d, p, a)" by (cases e)
  obtain c s ts where st: "st = (c, s, ts)" by (cases st)
  from Cons.prems e have p: "0 < p" and rest: "\<forall>(d, p, a)\<in>set es. 0 < p" by auto
  let ?st1 = "if a = buy \<and> s = 0 then (0, c / p, ts @ [\<lparr>day = d, action = Kupit, price = p, shares = c / p\<rparr>])
              else if a = sell \<and> s > 0 then (s * p, 0, ts @ [\<lparr>day = d, action = Prodat, price = p, shares = s\<rparr>])
              else (c, s, ts)"
  have step: "simulate (e # es) st = simulate es ?st1"
    using p by (simp add: e st)
  have op1: "one_position ?st1"
    using Cons.prems(2) p by (auto simp: one_position_def st)
  have abs1: "abs_state ?st1 = machine_step e (abs_state st)"
    using Cons.prems(2) p by (cases a) (auto simp: one_position_def abs_state_def st e)
  have wt1: "well_traded st \<longrightarrow> well_traded ?st1"
    using Cons.prems(2) p by (auto simp: one_position_def well_traded_def st alternates_snoc)
  from Cons.IH[OF rest op1] obtain st' where
    "simulate es ?st1 = Some st'" "one_position st'"
    "abs_state st' = fold machine_step es (abs_state ?st1)" "well_traded ?st1 \<longrightarrow> well_traded st'"
    by blast
  with step abs1 wt1 show ?case by auto
qed


lemma events_of_Nil:
  "find_local_extrema forecast = ([], []) \<Longrightarrow> events_of forecast = []"
  by (simp add: events_of_def all_events_def)

lemma final_state_events:
  "final_state forecast amt =
     map_option (liquidate forecast) (simulate (events_of forecast) (amt, 0, []))"
  by (simp add: final_state_def events_of_def split: prod.splits)

lemma positive_run:
  assumes "\<forall>p\<in>set forecast. 0 < p" "0 < amt"
  shows "\<exists>c ts. final_state forecast amt = Some (c, 0, ts) \<and>
           machine_close forecast (fold machine_step (events_of forecast) (Flat amt, [])) = (Flat c, ts) \<and>
           alternates True (map action ts) \<and> even (length ts)"
proof -
  have ev: "\<forall>(d, p, a)\<in>set (events_of forecast). 0 < p"
    using event_price_pos[OF assms(1)] by auto
  have op0: "one_position (amt, 0, [])" using assms(2) by (simp add: one_position_def)
  have wt0: "well_traded (amt, 0, [])" by (simp add: well_traded_def)
  from simulate_runs[OF ev op0] wt0 obtain c s ts where
    sim: "simulate (events_of forecast) (amt, 0, []) = Some (c, s, ts)" and
    op: "one_position (c, s, ts)" and
    ab: "abs_state (c, s, ts) = fold machine_step (events_of forecast) (abs_state (amt, 0, []))" and
    wt: "well_traded (c, s, ts)"
    by (metis prod_cases3)
  have ab0: "abs_state (amt, 0, []) = (Flat amt, [])" by (simp add: abs_state_def)
  show ?thesis
  proof (cases "s = 0")
    case True
    from ab True have "(Flat c, ts) = fold machine_step (events_of forecast) (Flat amt, [])"
      by (simp add: abs_state_def)
    then have "machine_close forecast (fold machine_step (events_of forecast) (Flat amt, [])) = (Flat c, ts)"
      by (metis machine_close.simps(2))
    with sim True wt show ?thesis
      by (simp add: final_state_events liquidate_def well_traded_def)
  next
    case False
    with op have s: "0 < s" by (auto simp: one_position_def)
    from ab s have "(Long s, ts) = fold machine_step (events_of forecast) (Flat amt, [])"
      by (simp add: abs_state_def)
    then have cl: "machine_close forecast (fold machine_step (events_of forecast) (Flat amt, [])) =
        (Flat (s * last forecast),
         ts @ [\<lparr>day = length forecast, action = Prodat_konec_perioda,
                  price = last forecast, shares = s\<rparr>])"
      by (metis machine_close.simps(1))
    from wt s have "alternates True (map action ts)" "odd (length ts)"
      by (auto simp: well_traded_def)
    then have "alternates True (map action (ts @ [\<lparr>day = length forecast, action = Prodat_konec_perioda,
                  price = last forecast, shares = s\<rparr>]))"
      by (simp add: alternates_snoc)
    with sim s cl \<open>odd (length ts)\<close> show ?thesis
      by (simp add: final_state_events liquidate_def)
  qed
qed

lemma strategy_of_final_state:
  assumes "final_state forecast amt = Some (c, 0, ts)" "amt \<noteq> 0"
  shows "\<exists>r. calculate_investment_strategy cp forecast amt = Some r \<and>
           final_amount r = c \<and> recommendations r = ts \<and> trades_count r = length ts \<and>
           total_profit r = final_amount r - amt \<and>
           profit_percentage r = (total_profit r / amt) * 100"
proof (cases "find_local_extrema forecast")
  case (Pair bps sps)
  show ?thesis
  proof (cases "bps = [] \<and> sps = []")
    case True
    with Pair have "events_of forecast = []" by (simp add: events_of_Nil)
    with assms(1) have "c = amt" "ts = []"
      by (simp_all add: final_state_events liquidate_def)
    with Pair True assms(2) show ?thesis
      by (simp add: calculate_investment_strategy_def)
  next
    case False
    with Pair assms show ?thesis
      by (auto simp: calculate_investment_strategy_def Let_def)
  qed
qed


lemma replay_snoc:
  "replay forecast (ts @ [t]) st = replay forecast [t] (replay forecast ts st)"
proof (induction ts arbitrary: st)
  case Nil
  show ?case by simp
next
  case (Cons u us)
  obtain c s where "st = (c, s)" by (cases st)
  with Cons show ?case by simp
qed

lemma simulate_replays:
  assumes "\<forall>(d, p, a)\<in>set es. p = forecast ! (d - 1)"
    "simulate es st = Some st'" "replays forecast amt st"
  shows "replays forecast amt st'"
  using assms
proof (induction es arbitrary: st)
  case Nil
  then show ?case by simp
next
  case (Cons e es)
  obtain d p a where e: "e = (d, p, a)" by (cases e)
  obtain c s ts where st: "st = (c, s, ts)" by (cases st)
  from Cons.prems(1) e have p: "p = forecast ! (d - 1)"
    and rest: "\<forall>(d, p, a)\<in>set es. p = forecast ! (d - 1)" by auto
  from Cons.prems(3) st have r: "replay forecast ts (amt, 0) = (c, s)"
    by (simp add: replays_def)
  consider (b) "a = buy" "s = 0" | (s) "\<not> (a = buy \<and> s = 0)" "a = sell" "0 < s"
    | (n) "\<not> (a = buy \<and> s = 0)" "\<not> (a = sell \<and> 0 < s)" by blast
  then show ?case
  proof cases
    case b
    with Cons.prems(2) e st have p0: "p \<noteq> 0" and
      sim: "simulate es (0, c / p, ts @ [\<lparr>day = d, action = Kupit, price = p, shares = c / p\<rparr>]) = Some st'"
      by (auto split: if_splits)
    have "replays forecast amt (0, c / p, ts @ [\<lparr>day = d, action = Kupit, price = p, shares = c / p\<rparr>])"
      using r p by (simp add: replays_def replay_snoc)
    from Cons.IH[OF rest sim this] show ?thesis .
  next
    case s
    with Cons.prems(2) e st have
      sim: "simulate es (s * p, 0, ts @ [\<lparr>day = d, action = Prodat, price = p, shares = s\<rparr>]) = Some st'"
      by (auto split: if_splits)
    have "replays forecast amt (s * p, 0, ts @ [\<lparr>day = d, action = Prodat, price = p, shares = s\<rparr>])"
      using r p by (simp add: replays_def replay_snoc)
    from Cons.IH[OF rest sim this] show ?thesis .
  next
    case n
    with Cons.prems(2) e st have sim: "simulate es (c, s, ts) = Some st'"
      by (auto split: if_splits)
    from Cons.IH[OF rest sim] Cons.prems(3) st show ?thesis by simp
  qed
qed

lemma events_at_forecast:
  "\<forall>(d, p, a)\<in>set (events_of forecast). p = forecast ! (d - 1)"
  using event_point by blast

lemma final_state_replays:
  assumes "final_state forecast amt = Some (c, s, ts)"
  shows "replay forecast ts (amt, 0) = (c, s)"
proof -
  from assms obtain c1 s1 ts1 where
    sim: "simulate (events_of forecast) (amt, 0, []) = Some (c1, s1, ts1)" and
    liq: "liquidate forecast (c1, s1, ts1) = (c, s, ts)"
    by (auto simp: final_state_events)
  have "replays forecast amt (amt, 0, [])" by (simp add: replays_def)
  from simulate_replays[OF events_at_forecast sim this]
  have r1: "replay forecast ts1 (amt, 0) = (c1, s1)" by (simp add: replays_def)
  show ?thesis
  proof (cases "0 < s1")
    case False
    with liq r1 show ?thesis by (simp add: liquidate_def)
  next
    case True
    have "events_of forecast \<noteq> []"
    proof
      assume "events_of forecast = []"
      with sim True show False by simp
    qed
    then obtain d p a where "(d, p, a) \<in> set (events_of forecast)"
      by (metis list.set_intros(1) neq_Nil_conv prod_cases3)
    from event_point[OF this] have "forecast \<noteq> []" by auto
    then have "last forecast = forecast ! (length forecast - 1)" by (rule last_conv_nth)
    with liq r1 True show ?thesis by (auto simp: liquidate_def replay_snoc)
  qed
qed

lemma simulate_at_forecast:
  assumes "\<forall>(d, p, a)\<in>set es. 2 \<le> d \<and> d < length forecast \<and> p = forecast ! (d - 1)"
    "simulate es (c, s, ts) = Some (c', s', ts')" "\<forall>t\<in>set ts. at_forecast forecast t"
  shows "\<forall>t\<in>set ts'. at_forecast forecast t"
  using assms
proof (induction es arbitrary: c s ts)
  case Nil
  then show ?case by simp
next
  case (Cons e es)
  obtain d p a where e: "e = (d, p, a)" by (cases e)
  from Cons.prems(1) e have ev: "2 \<le> d" "d < length forecast" "p = forecast ! (d - 1)"
    and rest: "\<forall>(d, p, a)\<in>set es. 2 \<le> d \<and> d < length forecast \<and> p = forecast ! (d - 1)"
    by auto
  have new: "at_forecast forecast \<lparr>day = d, action = k, price = p, shares = q\<rparr>" for k q
    using ev by (simp add: at_forecast_def)
  consider (b) "a = buy" "s = 0" | (s) "\<not> (a = buy \<and> s = 0)" "a = sell" "0 < s"
    | (n) "\<not> (a = buy \<and> s = 0)" "\<not> (a = sell \<and> 0 < s)" by blast
  then show ?case
  proof cases
    case b
    with Cons.prems(2) e have
      sim: "simulate es (0, c / p, ts @ [\<lparr>day = d, action = Kupit, price = p, shares = c / p\<rparr>]) =
              Some (c', s', ts')"
      by (auto split: if_splits)
    from Cons.prems(3) new have
      "\<forall>t\<in>set (ts @ [\<lparr>day = d, action = Kupit, price = p, shares = c / p\<rparr>]).
         at_forecast forecast t" by simp
    from Cons.IH[OF rest sim this] show ?thesis .
  next
    case s
    with Cons.prems(2) e have
      sim: "simulate es (s * p, 0, ts @ [\<lparr>day = d, action = Prodat, price = p, shares = s\<rparr>]) =
              Some (c', s', ts')"
      by (auto split: if_splits)
    from Cons.prems(3) new have
      "\<forall>t\<in>set (ts @ [\<lparr>day = d, action = Prodat, price = p, shares = s\<rparr>]).
         at_forecast forecast t" by simp
    from Cons.IH[OF rest sim this] show ?thesis .
  next
    case n
    with Cons.prems(2) e have sim: "simulate es (c, s, ts) = Some (c', s', ts')"
      by (auto split: if_splits)
    from Cons.IH[OF rest sim Cons.prems(3)] show ?thesis .
  qed
qed

lemma final_state_at_forecast:
  assumes "final_state forecast amt = Some (c, s, ts)"
  shows "\<forall>t\<in>set ts. at_forecast forecast t"
proof -
  from assms obtain c1 s1 ts1 where
    sim: "simulate (events_of forecast) (amt, 0, []) = Some (c1, s1, ts1)" and
    liq: "liquidate forecast (c1, s1, ts1) = (c, s, ts)"
    by (auto simp: final_state_events)
  have ev: "\<forall>(d, p, a)\<in>set (events_of forecast).
              2 \<le> d \<and> d < length forecast \<and> p = forecast ! (d - 1)"
    using event_point by blast
  have "\<forall>t\<in>set ([]::trade list). at_forecast forecast t" by simp
  from simulate_at_forecast[OF ev sim this] have t1: "\<forall>t\<in>set ts1. at_forecast forecast t" .
  show ?thesis
  proof (cases "0 < s1")
    case False
    with liq t1 show ?thesis by (simp add: liquidate_def)
  next
    case True
    have "events_of forecast \<noteq> []"
    proof
      assume "events_of forecast = []"
      with sim True show False by simp
    qed
    then obtain d p a where "(d, p, a) \<in> set (events_of forecast)"
      by (metis list.set_intros(1) neq_Nil_conv prod_cases3)
    from event_point[OF this] have ne: "forecast \<noteq> []" by auto
    then have "last forecast = forecast ! (length forecast - 1)" by (rule last_conv_nth)
    with ne have "at_forecast forecast
        \<lparr>day = length forecast, action = Prodat_konec_perioda,
          price = last forecast, shares = s1\<rparr>"
      by (simp add: at_forecast_def Suc_leI)
    with liq t1 True show ?thesis by (auto simp: liquidate_def)
  qed
qed

section \<open>Properties of the strategy simulator on floats\<close>

lemma simulate_float_trades:
  assumes "simulate_float A es (c, s, ts) = Some (c', s', ts')"
  shows "set ts \<subseteq> set ts'"
  using assms
proof (induction es arbitrary: c s ts)
  case Nil
  then show ?case by simp
next
  case (Cons e es)
  obtain d p a where e: "e = (d, p, a)" by (cases e)
  consider (b) "a = buy" "s = 0" | (s) "\<not> (a = buy \<and> s = 0)" "a = sell" "0 < s"
    | (n) "\<not> (a = buy \<and> s = 0)" "\<not> (a = sell \<and> 0 < s)" by blast
  then show ?case
  proof cases
    case b
    with Cons.prems e obtain q where
      "simulate_float A es (0, q, ts @ [\<lparr>day = d, action = Kupit, price = p, shares = q\<rparr>]) =
         Some (c', s', ts')"
      by (auto split: option.splits)
    from Cons.IH[OF this] show ?thesis by simp
  next
    case s
    with Cons.prems e obtain c1 where
      "simulate_float A es (c1, 0, ts @ [\<lparr>day = d, action = Prodat, price = p, shares = s\<rparr>]) =
         Some (c', s', ts')"
      by (auto split: option.splits)
    from Cons.IH[OF this] show ?thesis by simp
  next
    case n
    with Cons.prems e have "simulate_float A es (c, s, ts) = Some (c', s', ts')"
      by (auto split: if_splits)
    from Cons.IH[OF this] show ?thesis .
  qed
qed

lemma buys_positive_subset:
  assumes "buys_positive ts'" "set ts \<subseteq> set ts'"
  shows "buys_positive ts"
  using assms by (auto simp: buys_positive_def)

lemma simulate_float_settled:
  assumes "simulate_float A es st = Some st'"
    "buys_positive (snd (snd st'))" "settled st"
  shows "settled st' \<and> machine_run_float A es (abs_state st) = Some (abs_state st')"
  using assms
proof (induction es arbitrary: st)
  case Nil
  then show ?case by simp
next
  case (Cons e es)
  obtain d p a where e: "e = (d, p, a)" by (cases e)
  obtain c s ts where st: "st = (c, s, ts)" by (cases st)
  obtain c' s' ts' where st': "st' = (c', s', ts')" by (cases st')
  from Cons.prems(3) st have one: "s = 0 \<or> (c = 0 \<and> 0 < s)"
    and alt: "alternates True (map action ts)" and par: "even (length ts) \<longleftrightarrow> s = 0"
    by (simp_all add: settled_def)
  consider (b) "a = buy" "s = 0" | (s) "a = sell" "0 < s"
    | (n) "\<not> (a = buy \<and> s = 0)" "\<not> (a = sell \<and> 0 < s)" by fastforce
  then show ?case
  proof cases
    case b
    let ?t = "\<lambda>q. \<lparr>day = d, action = Kupit, price = p, shares = q\<rparr>"
    from b Cons.prems(1) e st obtain q where q: "fdiv A c p = Some q"
      and sim: "simulate_float A es (0, q, ts @ [?t q]) = Some st'"
      by (auto split: option.splits)
    from sim st' have "set (ts @ [?t q]) \<subseteq> set ts'"
      using simulate_float_trades by blast
    with Cons.prems(2) st' have "0 < q" by (auto simp: buys_positive_def)
    with alt par b have "settled (0, q, ts @ [?t q])"
      by (simp add: settled_def alternates_snoc)
    from Cons.IH[OF sim Cons.prems(2) this] \<open>0 < q\<close> b q e st show ?thesis
      by (simp add: abs_state_def)
  next
    case s
    let ?t = "\<lparr>day = d, action = Prodat, price = p, shares = s\<rparr>"
    from s Cons.prems(1) e st obtain c1 where c1: "fmul A s p = Some c1"
      and sim: "simulate_float A es (c1, 0, ts @ [?t]) = Some st'"
      by (auto split: option.splits)
    from alt par s have "settled (c1, 0, ts @ [?t])"
      by (simp add: settled_def alternates_snoc)
    from Cons.IH[OF sim Cons.prems(2) this] s c1 e st show ?thesis
      by (simp add: abs_state_def)
  next
    case n
    with Cons.prems(1) e st have sim: "simulate_float A es st = Some st'"
      by (auto split: if_splits)
    from n one have "machine_step_float A e (abs_state st) = Some (abs_state st)"
      by (cases a) (auto simp: abs_state_def e st)
    with Cons.IH[OF sim Cons.prems(2,3)] show ?thesis by simp
  qed
qed


lemma machine_step_float_trades:
  assumes "machine_step_float A e (pos, ts) = Some (pos', ts')"
  shows "set ts \<subseteq> set ts'"
  using assms
  by (cases "(A, e, (pos, ts))" rule: machine_step_float.cases) (auto split: option.splits)

lemma machine_run_float_trades:
  assumes "machine_run_float A es (pos, ts) = Some (pos', ts')"
  shows "set ts \<subseteq> set ts'"
  using assms
proof (induction es arbitrary: pos ts)
  case Nil
  then show ?case by simp
next
  case (Cons e es)
  from Cons.prems obtain pos1 ts1 where
    st: "machine_step_float A e (pos, ts) = Some (pos1, ts1)" and
    run: "machine_run_float A es (pos1, ts1) = Some (pos', ts')"
    by (auto split: option.splits)
  from machine_step_float_trades[OF st] Cons.IH[OF run] show ?case by blast
qed

lemma machine_run_float_settled:
  assumes "machine_run_float A es (abs_state st) = Some (pos', ts')"
    "buys_positive ts'" "settled st"
  shows "\<exists>st'. simulate_float A es st = Some st' \<and> abs_state st' = (pos', ts') \<and> settled st'"
  using assms
proof (induction es arbitrary: st)
  case Nil
  then show ?case by simp
next
  case (Cons e es)
  obtain d p a where e: "e = (d, p, a)" by (cases e)
  obtain c s ts where st: "st = (c, s, ts)" by (cases st)
  from Cons.prems(3) st have one: "s = 0 \<or> (c = 0 \<and> 0 < s)"
    and alt: "alternates True (map action ts)" and par: "even (length ts) \<longleftrightarrow> s = 0"
    by (simp_all add: settled_def)
  consider (b) "a = buy" "s = 0" | (s) "a = sell" "0 < s"
    | (n) "\<not> (a = buy \<and> s = 0)" "\<not> (a = sell \<and> 0 < s)" by fastforce
  then show ?case
  proof cases
    case b
    let ?t = "\<lambda>q. \<lparr>day = d, action = Kupit, price = p, shares = q\<rparr>"
    from b st have abs: "abs_state st = (Flat c, ts)" by (simp add: abs_state_def)
    from Cons.prems(1) b e obtain q where q: "fdiv A c p = Some q"
      and run: "machine_run_float A es (Long q, ts @ [?t q]) = Some (pos', ts')"
      unfolding abs by (auto split: option.splits)
    from machine_run_float_trades[OF run] Cons.prems(2) have "0 < q"
      by (auto simp: buys_positive_def)
    then have abs1: "abs_state (0, q, ts @ [?t q]) = (Long q, ts @ [?t q])"
      by (simp add: abs_state_def)
    from \<open>0 < q\<close> alt par b have "settled (0, q, ts @ [?t q])"
      by (simp add: settled_def alternates_snoc)
    from Cons.IH[OF run[folded abs1] Cons.prems(2) this] b q e st show ?thesis
      by simp
  next
    case s
    let ?t = "\<lparr>day = d, action = Prodat, price = p, shares = s\<rparr>"
    from s st have abs: "abs_state st = (Long s, ts)" by (simp add: abs_state_def)
    from Cons.prems(1) s e obtain c1 where c1: "fmul A s p = Some c1"
      and run: "machine_run_float A es (Flat c1, ts @ [?t]) = Some (pos', ts')"
      unfolding abs by (auto split: option.splits)
    have abs1: "abs_state (c1, 0, ts @ [?t]) = (Flat c1, ts @ [?t])"
      by (simp add: abs_state_def)
    from alt par s have "settled (c1, 0, ts @ [?t])"
      by (simp add: settled_def alternates_snoc)
    from Cons.IH[OF run[folded abs1] Cons.prems(2) this] s c1 e st show ?thesis
      by simp
  next
    case n
    from n one have "machine_step_float A e (abs_state st) = Some (abs_state st)"
      by (cases a) (auto simp: abs_state_def e st)
    with Cons.prems(1) have run: "machine_run_float A es (abs_state st) = Some (pos', ts')"
      by simp
    from Cons.IH[OF run Cons.prems(2,3)] n e st show ?thesis by auto
  qed
qed


lemma liquidate_float_settled:
  assumes "liquidate_float A forecast st = Some (c, s, ts)" "settled st"
  shows "s = 0 \<and> alternates True (map action ts) \<and> even (length ts) \<and>
         set (snd (snd st)) \<subseteq> set ts \<and>
         machine_close_float A forecast (abs_state st) = Some (c, ts)"
proof -
  obtain c1 s1 ts1 where st: "st = (c1, s1, ts1)" by (cases st)
  from assms(2) st have one: "s1 = 0 \<or> (c1 = 0 \<and> 0 < s1)"
    and alt: "alternates True (map action ts1)" and par: "even (length ts1) \<longleftrightarrow> s1 = 0"
    by (simp_all add: settled_def)
  show ?thesis
  proof (cases "0 < s1")
    case True
    with assms(1) st alt par show ?thesis
      by (auto simp: liquidate_float_def abs_state_def alternates_snoc split: option.splits)
  next
    case False
    with one have "s1 = 0" by simp
    with assms(1) st alt par show ?thesis
      by (auto simp: liquidate_float_def abs_state_def)
  qed
qed

lemma liquidate_float_trades:
  assumes "liquidate_float A forecast (c1, s1, ts1) = Some (c, s, ts)"
  shows "set ts1 \<subseteq> set ts"
  using assms by (auto simp: liquidate_float_def split: if_splits option.splits)

lemma machine_close_float_trades:
  assumes "machine_close_float A forecast (pos, ts1) = Some (c, ts)"
  shows "set ts1 \<subseteq> set ts"
  using assms by (cases pos) (auto split: option.splits)

lemma liquidate_float_close:
  assumes "settled st"
  shows "liquidate_float A forecast st =
           map_option (\<lambda>(c, ts). (c, 0, ts)) (machine_close_float A forecast (abs_state st))"
proof -
  obtain c1 s1 ts1 where st: "st = (c1, s1, ts1)" by (cases st)
  from assms st have "s1 = 0 \<or> (c1 = 0 \<and> 0 < s1)" by (simp add: settled_def)
  then show ?thesis
    by (auto simp: st liquidate_float_def abs_state_def split: option.splits)
qed

lemma settled_start: "settled (amt, 0, [])"
  by (simp add: settled_def)

lemma abs_state_start: "abs_state (amt, 0, []) = (Flat amt, [])"
  by (simp add: abs_state_def)

lemma final_state_float_settled:
  assumes "final_state_float A forecast amt = Some (c, s, ts)" "buys_positive ts"
  shows "s = 0 \<and> alternates True (map action ts) \<and> even (length ts) \<and>
         machine_float A forecast amt = Some (c, ts)"
proof -
  from assms(1) obtain st1 where
    sim: "simulate_float A (events_of forecast) (amt, 0, []) = Some st1" and
    liq: "liquidate_float A forecast st1 = Some (c, s, ts)"
    by (auto simp: final_state_float_def split: option.splits)
  obtain c1 s1 ts1 where st1: "st1 = (c1, s1, ts1)" by (cases st1)
  from liquidate_float_trades[OF liq[unfolded st1]] assms(2) have "buys_positive ts1"
    by (rule buys_positive_subset[rotated])
  then have "buys_positive (snd (snd st1))" by (simp add: st1)
  from simulate_float_settled[OF sim this settled_start] have
    se: "settled st1" and
    run: "machine_run_float A (events_of forecast) (Flat amt, []) = Some (abs_state st1)"
    by (simp_all add: abs_state_start)
  from liquidate_float_settled[OF liq se] run show ?thesis
    by (simp add: machine_float_def)
qed

lemma machine_float_final_state:
  assumes "machine_float A forecast amt = Some (c, ts)" "buys_positive ts"
  shows "final_state_float A forecast amt = Some (c, 0, ts)"
proof -
  from assms(1) obtain pos1 ts1 where
    run: "machine_run_float A (events_of forecast) (Flat amt, []) = Some (pos1, ts1)" and
    cl: "machine_close_float A forecast (pos1, ts1) = Some (c, ts)"
    by (auto simp: machine_float_def split: option.splits)
  from machine_close_float_trades[OF cl] assms(2) have bp: "buys_positive ts1"
    by (rule buys_positive_subset[rotated])
  from machine_run_float_settled[OF run[folded abs_state_start] bp settled_start]
  obtain st1 where sim: "simulate_float A (events_of forecast) (amt, 0, []) = Some st1"
    and ab: "abs_state st1 = (pos1, ts1)" and se: "settled st1"
    by blast
  from liquidate_float_close[OF se, of A forecast] ab cl
  have "liquidate_float A forecast st1 = Some (c, 0, ts)" by simp
  with sim show ?thesis by (simp add: final_state_float_def)
qed

lemma strategy_float_final_state:
  assumes "calculate_investment_strategy_float A cp forecast amt = Some r"
  shows "\<exists>c s. final_state_float A forecast amt = Some (c, s, recommendations r) \<and>
           (s = 0 \<longrightarrow> final_amount r = c)"
proof (cases "find_local_extrema forecast")
  case (Pair bps sps)
  show ?thesis
  proof (cases "bps = [] \<and> sps = []")
    case True
    with Pair have "events_of forecast = []" by (simp add: events_of_def all_events_def)
    then have "final_state_float A forecast amt = Some (amt, 0, [])"
      by (simp add: final_state_float_def liquidate_float_def)
    with assms Pair True show ?thesis
      by (auto simp: calculate_investment_strategy_float_def)
  next
    case False
    with assms Pair obtain st where
      fs: "final_state_float A forecast amt = Some st" and
      rp: "report_float A forecast amt bps sps st = Some r"
      by (auto simp: calculate_investment_strategy_float_def split: option.splits)
    obtain c s ts where st: "st = (c, s, ts)" by (cases st)
    from rp st have "recommendations r = ts" "s = 0 \<longrightarrow> final_amount r = c"
      by (auto simp: report_float_def split: option.splits if_splits)
    with fs st show ?thesis by simp
  qed
qed

lemma final_state_float_strategy:
  assumes "final_state_float A forecast amt = Some (c, 0, ts)"
    "fsub A c amt = Some profit" "fdiv A profit amt = Some ratio"
    "fmul A ratio 100 = Some percentage"
  shows "\<exists>r. calculate_investment_strategy_float A cp forecast amt = Some r \<and>
           final_amount r = c \<and> recommendations r = ts"
proof (cases "find_local_extrema forecast")
  case (Pair bps sps)
  show ?thesis
  proof (cases "bps = [] \<and> sps = []")
    case True
    with Pair have "events_of forecast = []" by (simp add: events_of_def all_events_def)
    then have "final_state_float A forecast amt = Some (amt, 0, [])"
      by (simp add: final_state_float_def liquidate_float_def)
    with assms(1) have "c = amt" "ts = []" by simp_all
    with Pair True show ?thesis
      by (simp add: calculate_investment_strategy_float_def)
  next
    case False
    with Pair assms show ?thesis
      by (auto simp: calculate_investment_strategy_float_def report_float_def)
  qed
qed


subsection \<open>The operations without rounding\<close>

text \<open>
  With the operations without rounding the float model of the strategy is the
  model in the reals.
\<close>

lemma exact_simps:
  "fsub exact a b = Some (a - b)" "fmul exact a b = Some (a * b)"
  "fdiv exact a b = (if b = 0 then None else Some (a / b))"
  "fsq exact a = Some (a\<^sup>2)" "fsqrt exact a = (if a < 0 then None else Some (sqrt a))"
  "fsum exact xs = Some (sum_list xs)" "fmean exact xs = np_mean xs"
  by (simp_all add: exact_def np_mean_def)


lemma simulate_float_exact: "simulate_float exact es st = simulate es st"
proof (induction es arbitrary: st)
  case Nil
  show ?case by simp
next
  case (Cons e es)
  obtain d p a where e: "e = (d, p, a)" by (cases e)
  obtain c s ts where st: "st = (c, s, ts)" by (cases st)
  show ?case unfolding e st by (simp add: Cons.IH exact_simps)
qed

lemma final_state_float_exact: "final_state_float exact forecast amt = final_state forecast amt"
proof (cases "simulate (events_of forecast) (amt, 0, [])")
  case None
  then show ?thesis by (simp add: final_state_float_def final_state_def simulate_float_exact)
next
  case (Some st)
  obtain c s ts where st: "st = (c, s, ts)" by (cases st)
  from Some show ?thesis
    unfolding final_state_float_def final_state_def simulate_float_exact st
    by (simp add: liquidate_float_def liquidate_def exact_simps)
qed

lemma strategy_float_exact:
  "calculate_investment_strategy_float exact cp forecast amt =
   calculate_investment_strategy cp forecast amt"
proof (cases "find_local_extrema forecast")
  case (Pair bps sps)
  show ?thesis
  proof (cases "final_state forecast amt")
    case None
    with Pair show ?thesis
      by (simp add: calculate_investment_strategy_float_def calculate_investment_strategy_def
          final_state_float_exact)
  next
    case (Some st)
    obtain c s ts where st: "st = (c, s, ts)" by (cases st)
    have r: "report_float exact forecast amt bps sps (c, s, ts) =
               (if amt = 0 then None
                else Some \<lparr>recommendations = ts,
                           total_profit = (if s = 0 then c else s * last forecast) - amt,
                           profit_percentage =
                             (((if s = 0 then c else s * last forecast) - amt) / amt) * 100,
                           final_amount = (if s = 0 then c else s * last forecast),
                           trades_count = length ts,
                           buy_points = Some bps, sell_points = Some sps\<rparr>)"
      by (simp add: report_float_def exact_simps)
    have "calculate_investment_strategy_float exact cp forecast amt =
            (if bps = [] \<and> sps = [] then
               Some \<lparr>recommendations = [], total_profit = 0, profit_percentage = 0,
                     final_amount = amt, trades_count = 0,
                     buy_points = None, sell_points = None\<rparr>
             else report_float exact forecast amt bps sps (c, s, ts))"
      unfolding calculate_investment_strategy_float_def final_state_float_exact Pair Some st
      by simp
    moreover have "calculate_investment_strategy cp forecast amt =
            (if bps = [] \<and> sps = [] then
               Some \<lparr>recommendations = [], total_profit = 0, profit_percentage = 0,
                     final_amount = amt, trades_count = 0,
                     buy_points = None, sell_points = None\<rparr>
             else (if amt = 0 then None
                else Some \<lparr>recommendations = ts,
                           total_profit = (if s = 0 then c else s * last forecast) - amt,
                           profit_percentage =
                             (((if s = 0 then c else s * last forecast) - amt) / amt) * 100,
                           final_amount = (if s = 0 then c else s * last forecast),
                           trades_count = length ts,
                           buy_points = Some bps, sell_points = Some sps\<rparr>))"
      unfolding calculate_investment_strategy_def Pair Some st
      by (simp add: Let_def)
    ultimately show ?thesis by (simp only: r)
  qed
qed

subsection \<open>Extrema detection\<close>

text \<open>
  Claim C4. For every forecast, a pair \<open>(d, v)\<close> is a buy candidate exactly when
  \<open>d = i + 1\<close> for an interior index \<open>i\<close> whose value \<open>v\<close> is strictly below both
  neighbours, and a sell candidate exactly when it is strictly above both. On
  the sequence 10, 8, 12, 7, 15, 15, 9 the buy candidates are day 2 at 8 and day
  4 at 7, the only sell candidate is day 3 at 12, and the tie at days 5 and 6
  gives no candidate.
\<close>

theorem find_local_extrema_candidates:
  "((d, v) \<in> set (fst (find_local_extrema forecast)) \<longleftrightarrow>
      (\<exists>i. i + 1 < length forecast \<and> 1 \<le> i \<and> d = i + 1 \<and> v = forecast ! i \<and>
           forecast ! i < forecast ! (i - 1) \<and> forecast ! i < forecast ! (i + 1))) \<and>
   ((d, v) \<in> set (snd (find_local_extrema forecast)) \<longleftrightarrow>
      (\<exists>i. i + 1 < length forecast \<and> 1 \<le> i \<and> d = i + 1 \<and> v = forecast ! i \<and>
           forecast ! i > forecast ! (i - 1) \<and> forecast ! i > forecast ! (i + 1))) \<and>
   find_local_extrema [10, 8, 12, 7, 15, 15, 9] = ([(2, 8), (4, 7)], [(3, 12)])"
proof (intro conjI)
  show "find_local_extrema [10, 8, 12, 7, 15, 15, 9] = ([(2, 8), (4, 7)], [(3, 12)])"
    by (simp add: find_local_extrema_def upt_conv_Cons)
qed (auto simp: find_local_extrema_def Let_def)

subsection \<open>The current price\<close>

text \<open>
  Claim C10. The \<open>current_price\<close> argument has no influence on the result: for
  every forecast and investment amount, two calls that differ only in the
  current price return the same value, trade list, amounts and count alike.
\<close>

theorem current_price_has_no_influence:
  "calculate_investment_strategy current_price1 forecast investment_amount =
   calculate_investment_strategy current_price2 forecast investment_amount"
  by (simp add: calculate_investment_strategy_def)

subsection \<open>The simulation as a two-state machine\<close>

text \<open>
  Claim C3, as stated, fails in two ways. On the forecast 3, -1, 2, 1 with 1000
  invested, where every float operation is exact, the buy at the negative
  value of day 2 leaves -1000 shares; the source's test \<open>shares > 0\<close> then
  skips the sale at day 3, which the two-state machine executes. On the
  forecast 10, 8, 12, 7, 15, 15, 9 with the positive amount 2 to the power
  -1073 invested, the quotient of the buy at day 2 is rounded to zero; the
  source's test \<open>shares == 0\<close> then takes the position for flat, skips the sale
  at day 3 and buys again at day 4, where the machine sells, buys and sells at
  the end of the period.
\<close>

theorem strategy_machine_counterexample:
  "calculate_investment_strategy_float exact 10 [3, - 1, 2, 1] 1000 =
     Some \<lparr>recommendations = [\<lparr>day = 2, action = Kupit, price = - 1, shares = - 1000\<rparr>],
           total_profit = - 2000, profit_percentage = - 200, final_amount = - 1000,
           trades_count = 1, buy_points = Some [(2, - 1)], sell_points = Some [(3, 2)]\<rparr> \<and>
   machine_float exact [3, - 1, 2, 1] 1000 =
     Some (- 2000,
           [\<lparr>day = 2, action = Kupit, price = - 1, shares = - 1000\<rparr>,
            \<lparr>day = 3, action = Prodat, price = 2, shares = - 1000\<rparr>]) \<and>
   calculate_investment_strategy_float exact_with_underflow 10 [10, 8, 12, 7, 15, 15, 9]
       (1 / 2 ^ 1073) =
     Some \<lparr>recommendations =
             [\<lparr>day = 2, action = Kupit, price = 8, shares = 0\<rparr>,
              \<lparr>day = 4, action = Kupit, price = 7, shares = 0\<rparr>],
           total_profit = - (1 / 2 ^ 1073), profit_percentage = - 100, final_amount = 0,
           trades_count = 2, buy_points = Some [(2, 8), (4, 7)],
           sell_points = Some [(3, 12)]\<rparr> \<and>
   machine_float exact_with_underflow [10, 8, 12, 7, 15, 15, 9] (1 / 2 ^ 1073) =
     Some (0,
           [\<lparr>day = 2, action = Kupit, price = 8, shares = 0\<rparr>,
            \<lparr>day = 3, action = Prodat, price = 12, shares = 0\<rparr>,
            \<lparr>day = 4, action = Kupit, price = 7, shares = 0\<rparr>,
            \<lparr>day = 7, action = Prodat_konec_perioda, price = 9, shares = 0\<rparr>])"
  by (simp add: calculate_investment_strategy_float_def final_state_float_def machine_float_def
      events_of_def all_events_def find_local_extrema_def liquidate_float_def report_float_def
      exact_def exact_with_underflow_def underflow_def upt_conv_Cons)

text \<open>
  Claim C3, amended. For every forecast and investment amount, and whatever
  the float operations round to, the events are the buy and sell candidates
  in strictly increasing order of day. Whenever the function returns a
  result, computed without a NaN or an infinity, all of whose buys bought a
  positive number of shares, the final amount and the trade list are those of
  the two-state machine run on these events from the flat state holding the
  investment, with the end-of-period sale at the last forecast value when it
  ends long. Whenever the machine ends with an amount and with trades all of
  whose buys bought a positive number of shares, and the three operations of
  the profit computation have a value, the function returns that amount and
  these trades. A buy at a forecast value that is not positive, and a buy
  whose quotient the floats round to zero, are excluded by the condition on
  the buys.
\<close>

theorem strategy_is_two_state_machine:
  "sorted_wrt (<) (map fst (events_of forecast)) \<and>
   set (events_of forecast) =
     (\<lambda>(d, p). (d, p, buy)) ` set (fst (find_local_extrema forecast)) \<union>
     (\<lambda>(d, p). (d, p, sell)) ` set (snd (find_local_extrema forecast)) \<and>
   (calculate_investment_strategy_float A current_price forecast investment_amount = Some r \<and>
    buys_positive (recommendations r) \<longrightarrow>
      machine_float A forecast investment_amount = Some (final_amount r, recommendations r)) \<and>
   (machine_float A forecast investment_amount = Some (c, ts) \<and> buys_positive ts \<and>
    fsub A c investment_amount = Some profit \<and>
    fdiv A profit investment_amount = Some ratio \<and>
    fmul A ratio 100 = Some percentage \<longrightarrow>
      (\<exists>r. calculate_investment_strategy_float A current_price forecast investment_amount =
             Some r \<and>
           final_amount r = c \<and> recommendations r = ts))"
proof (intro conjI impI)
  show "sorted_wrt (<) (map fst (events_of forecast))"
    by (rule events_strictly_chronological)
  show "set (events_of forecast) =
          (\<lambda>(d, p). (d, p, buy)) ` set (fst (find_local_extrema forecast)) \<union>
          (\<lambda>(d, p). (d, p, sell)) ` set (snd (find_local_extrema forecast))"
    by (cases "find_local_extrema forecast") (simp add: events_of_def set_all_events)
next
  assume h: "calculate_investment_strategy_float A current_price forecast investment_amount =
               Some r \<and> buys_positive (recommendations r)"
  from strategy_float_final_state[of A current_price forecast investment_amount r] h
  obtain c s where
    fs: "final_state_float A forecast investment_amount = Some (c, s, recommendations r)" and
    fa: "s = 0 \<longrightarrow> final_amount r = c"
    by blast
  from final_state_float_settled[OF fs] h fa
  show "machine_float A forecast investment_amount = Some (final_amount r, recommendations r)"
    by simp
next
  assume h: "machine_float A forecast investment_amount = Some (c, ts) \<and> buys_positive ts \<and>
             fsub A c investment_amount = Some profit \<and>
             fdiv A profit investment_amount = Some ratio \<and>
             fmul A ratio 100 = Some percentage"
  then have "final_state_float A forecast investment_amount = Some (c, 0, ts)"
    using machine_float_final_state by blast
  with h show "\<exists>r. calculate_investment_strategy_float A current_price forecast
                      investment_amount = Some r \<and>
                    final_amount r = c \<and> recommendations r = ts"
    using final_state_float_strategy by blast
qed

theorem strategy_is_two_state_machine_witness:
  "calculate_investment_strategy_float exact 10 [10, 8, 12, 7, 15, 15, 9] 1000 =
     Some \<lparr>recommendations =
             [\<lparr>day = 2, action = Kupit, price = 8, shares = 125\<rparr>,
              \<lparr>day = 3, action = Prodat, price = 12, shares = 125\<rparr>,
              \<lparr>day = 4, action = Kupit, price = 7, shares = 1500 / 7\<rparr>,
              \<lparr>day = 7, action = Prodat_konec_perioda, price = 9, shares = 1500 / 7\<rparr>],
           total_profit = 6500 / 7, profit_percentage = 650 / 7, final_amount = 13500 / 7,
           trades_count = 4, buy_points = Some [(2, 8), (4, 7)],
           sell_points = Some [(3, 12)]\<rparr> \<and>
   buys_positive
     [\<lparr>day = 2, action = Kupit, price = 8, shares = 125\<rparr>,
      \<lparr>day = 3, action = Prodat, price = 12, shares = 125\<rparr>,
      \<lparr>day = 4, action = Kupit, price = 7, shares = 1500 / 7\<rparr>,
      \<lparr>day = 7, action = Prodat_konec_perioda, price = 9, shares = 1500 / 7\<rparr>] \<and>
   machine_float exact [10, 8, 12, 7, 15, 15, 9] 1000 =
     Some (13500 / 7,
           [\<lparr>day = 2, action = Kupit, price = 8, shares = 125\<rparr>,
            \<lparr>day = 3, action = Prodat, price = 12, shares = 125\<rparr>,
            \<lparr>day = 4, action = Kupit, price = 7, shares = 1500 / 7\<rparr>,
            \<lparr>day = 7, action = Prodat_konec_perioda, price = 9, shares = 1500 / 7\<rparr>])"
proof -
  let ?ts = "[\<lparr>day = 2, action = Kupit, price = 8, shares = 125\<rparr>,
      \<lparr>day = 3, action = Prodat, price = 12, shares = 125\<rparr>,
      \<lparr>day = 4, action = Kupit, price = 7, shares = 1500 / 7\<rparr>,
      \<lparr>day = 7, action = Prodat_konec_perioda, price = 9, shares = 1500 / 7\<rparr>]"
  let ?r = "\<lparr>recommendations = ?ts,
           total_profit = 6500 / 7, profit_percentage = 650 / 7, final_amount = 13500 / 7,
           trades_count = 4, buy_points = Some [(2, 8), (4, 7)],
           sell_points = Some [(3, 12)]\<rparr>"
  have h1: "calculate_investment_strategy_float exact 10 [10, 8, 12, 7, 15, 15, 9] 1000 = Some ?r"
    by (simp add: calculate_investment_strategy_float_def final_state_float_def events_of_def
        all_events_def find_local_extrema_def liquidate_float_def report_float_def exact_def
        upt_conv_Cons)
  have h2: "buys_positive ?ts" by (simp add: buys_positive_def)
  from h2 have h2': "buys_positive (recommendations ?r)" by simp
  from strategy_is_two_state_machine[of "[10, 8, 12, 7, 15, 15, 9]" exact 10 1000 ?r] h1 h2'
  have "machine_float exact [10, 8, 12, 7, 15, 15, 9] 1000 =
          Some (final_amount ?r, recommendations ?r)"
    by blast
  then have "machine_float exact [10, 8, 12, 7, 15, 15, 9] 1000 = Some (13500 / 7, ?ts)"
    by simp
  with h1 h2 show ?thesis by blast
qed

subsection \<open>One position at a time\<close>




subsection \<open>Replaying the trades\<close>

text \<open>
  Claim C9, as stated, fails on a forecast with a negative value at a local
  minimum. On 4, -2, 6, 3 with 1000 invested the only trade is the buy at day
  2; replaying it from 1000 leaves no cash and -500 shares, while the reported
  final amount is -1500.
\<close>

theorem replay_counterexample:
  "calculate_investment_strategy 10 [4, - 2, 6, 3] 1000 =
     Some \<lparr>recommendations = [\<lparr>day = 2, action = Kupit, price = - 2, shares = - 500\<rparr>],
           total_profit = - 2500, profit_percentage = - 250, final_amount = - 1500,
           trades_count = 1, buy_points = Some [(2, - 2)], sell_points = Some [(3, 6)]\<rparr> \<and>
   replay [4, - 2, 6, 3] [\<lparr>day = 2, action = Kupit, price = - 2, shares = - 500\<rparr>] (1000, 0) =
     (0, - 500)"
  by (simp add: calculate_investment_strategy_def final_state_def events_of_def
      all_events_def find_local_extrema_def liquidate_def upt_conv_Cons)

text \<open>
  Claim C9, amended. For every forecast whose values are all positive and every
  positive investment amount, the price of every returned trade is the forecast
  value of its day, and replaying the trades against the forecast from the
  investment amount ends with no shares and with exactly the reported final
  amount in cash; the total profit is the final amount minus the investment,
  the profit percentage is the total profit over the investment times 100, and
  the trade count is the length of the trade list.
\<close>

theorem replay_reproduces_final_amount:
  assumes "\<forall>p\<in>set forecast. 0 < p" and "0 < investment_amount"
  shows "\<exists>r. calculate_investment_strategy current_price forecast investment_amount = Some r \<and>
           (\<forall>t\<in>set (recommendations r). at_forecast forecast t) \<and>
           replay forecast (recommendations r) (investment_amount, 0) = (final_amount r, 0) \<and>
           total_profit r = final_amount r - investment_amount \<and>
           profit_percentage r = (total_profit r / investment_amount) * 100 \<and>
           trades_count r = length (recommendations r)"
proof -
  from positive_run[OF assms] obtain c ts where
    fs: "final_state forecast investment_amount = Some (c, 0, ts)"
    by blast
  from assms(2) have "investment_amount \<noteq> 0" by simp
  from strategy_of_final_state[OF fs this, of current_price] obtain r where
    r: "calculate_investment_strategy current_price forecast investment_amount = Some r"
       "final_amount r = c" "recommendations r = ts" "trades_count r = length ts"
       "total_profit r = final_amount r - investment_amount"
       "profit_percentage r = (total_profit r / investment_amount) * 100"
    by blast
  from final_state_replays[OF fs] final_state_at_forecast[OF fs] r show ?thesis by simp
qed

theorem replay_reproduces_final_amount_witness:
  "list_all (\<lambda>p. 0 < p) [10, 8, 12, 7, 15, 15, 9::real] \<and> (0::real) < 1000 \<and>
   (\<exists>r. calculate_investment_strategy 10 [10, 8, 12, 7, 15, 15, 9] 1000 = Some r \<and>
        (\<forall>t\<in>set (recommendations r). at_forecast [10, 8, 12, 7, 15, 15, 9] t) \<and>
        replay [10, 8, 12, 7, 15, 15, 9] (recommendations r) (1000, 0) = (final_amount r, 0) \<and>
        total_profit r = final_amount r - 1000 \<and>
        profit_percentage r = (total_profit r / 1000) * 100 \<and>
        trades_count r = length (recommendations r))"
proof -
  have h1: "\<forall>p\<in>set [10, 8, 12, 7, 15, 15, 9::real]. 0 < p" by simp
  have h2: "(0::real) < 1000" by simp
  have h3: "list_all (\<lambda>p. 0 < p) [10, 8, 12, 7, 15, 15, 9::real]" by simp
  from replay_reproduces_final_amount[OF h1 h2, of 10] h2 h3 show ?thesis by blast
qed

section \<open>Properties of the evaluation harness\<close>

subsection \<open>Metrics\<close>








text \<open>
  With the operations without rounding the float model of the metrics is the
  model in the reals.
\<close>

lemma those_map_Some: "those (map (\<lambda>x. Some (f x)) xs) = Some (map f xs)"
  by (induction xs) simp_all

lemma ss_tot_float_exact: "ss_tot_float exact y = Some (ss_tot y)"
proof (cases "y = []")
  case True
  then show ?thesis by (simp add: ss_tot_float_def ss_tot_def np_mean_def exact_simps)
next
  case False
  let ?m = "sum_list y / real (length y)"
  have "map (squared_deviation exact (fmean exact y)) y = map (\<lambda>t. Some ((t - ?m)\<^sup>2)) y"
    using False by (simp add: squared_deviation_def exact_simps np_mean_def)
  then have "those (map (squared_deviation exact (fmean exact y)) y) =
      Some (map (\<lambda>t. (t - ?m)\<^sup>2) y)"
    by (simp only: those_map_Some)
  with False show ?thesis by (simp add: ss_tot_float_def ss_tot_def np_mean_def exact_simps)
qed

lemma percentage_errors_exact:
  "percentage_errors exact (map (\<lambda>(t, p). t - p) pairs) pairs =
     (if \<exists>(t, p)\<in>set pairs. t = 0 then None
      else Some (map (\<lambda>(t, p). \<bar>(t - p) / t\<bar>) pairs))"
proof (induction pairs)
  case Nil
  show ?case by (simp add: percentage_errors_def)
next
  case (Cons a pairs)
  obtain t p where a: "a = (t, p)" by (cases a)
  from Cons.IH show ?case
    unfolding a percentage_errors_def
    by (auto simp: exact_simps split: option.splits)
qed

lemma mean_squares_nonneg:
  assumes "np_mean (map (\<lambda>d. d\<^sup>2) ds) = Some v"
  shows "\<not> v < (0::real)"
proof -
  have "0 \<le> sum_list (map (\<lambda>d. d\<^sup>2) ds)" by (rule sum_list_nonneg) auto
  then have "0 \<le> sum_list (map (\<lambda>d. d\<^sup>2) ds) / real (length ds)" by simp
  with assms show ?thesis by (auto simp: np_mean_def split: if_splits)
qed

lemma calculate_metrics_float_exact:
  "calculate_metrics_float exact y_true y_pred =
     map_sum id (\<lambda>m. \<lparr>f_RMSE = RMSE m, f_MAE = MAE m, f_MAPE = MAPE m, f_R2 = Some (R2 m)\<rparr>)
       (calculate_metrics y_true y_pred)"
proof (cases "np_broadcast y_true y_pred")
  case (Inl e)
  then show ?thesis by (simp add: calculate_metrics_float_def calculate_metrics_def)
next
  case (Inr pairs)
  let ?diff = "map (\<lambda>(t, p). t - p) pairs"
  have d: "those (map (\<lambda>(t, p). fsub exact t p) pairs) = Some ?diff"
    using those_map_Some[of "\<lambda>(t, p). t - p" pairs]
    by (simp add: exact_simps case_prod_unfold)
  have s: "those (map (fsq exact) ?diff) = Some (map (\<lambda>d. d\<^sup>2) ?diff)"
  proof -
    have "fsq exact = (\<lambda>d. Some (d\<^sup>2))" by (rule ext) (simp add: exact_simps)
    then show ?thesis by (simp only: those_map_Some)
  qed
  have r: "Option.bind (fmean exact (map (\<lambda>d. d\<^sup>2) ?diff)) (fsqrt exact) =
           map_option sqrt (np_mean (map (\<lambda>d. d\<^sup>2) ?diff))"
  proof (cases "np_mean (map (\<lambda>d. d\<^sup>2) ?diff)")
    case None
    then show ?thesis by (simp add: exact_simps)
  next
    case (Some v)
    with mean_squares_nonneg[OF Some] show ?thesis by (simp add: exact_simps)
  qed
  have a: "fmean exact (map abs ?diff) = np_mean (map abs ?diff)" by (simp add: exact_simps)
  have m: "Option.bind (Option.bind (percentage_errors exact ?diff pairs) (fmean exact))
             (\<lambda>m. fmul exact m 100) =
           (if \<exists>(t, p)\<in>set pairs. t = 0 then None
            else map_option (\<lambda>m. m * 100) (np_mean (map (\<lambda>(t, p). \<bar>(t - p) / t\<bar>) pairs)))"
    unfolding percentage_errors_exact
    by (cases "np_mean (map (\<lambda>(t, p). \<bar>(t - p) / t\<bar>) pairs)") (simp_all add: exact_simps)
  have q: "fsum exact (map (\<lambda>d. d\<^sup>2) ?diff) = Some (sum_list (map (\<lambda>d. d\<^sup>2) ?diff))"
    by (simp add: exact_simps)
  show ?thesis
    unfolding calculate_metrics_float_def calculate_metrics_def Inr
    by (simp only: sum.case Let_def d s bind.bind_lunit r a m q ss_tot_float_exact
        option.case map_sum.simps id_apply metrics.simps)
      (simp add: exact_simps)
qed




subsection \<open>The harness\<close>

lemma evaluate_loop_step:
  "evaluate_loop train (m # ms) results =
     evaluate_loop train ms
       (case score (train m) of None \<Rightarrow> results | Some mt \<Rightarrow> dict_set results (name m) (m, mt))"
  by (simp add: score_def split: sum.splits prod.splits)

lemma place_simps:
  "place MLModel = 0" "place ARIMAModel = 1" "place LSTMModel = 2"
  by (simp_all add: place_def models_def)

lemma model_all: "(\<forall>m. P m) \<longleftrightarrow> P MLModel \<and> P ARIMAModel \<and> P LSTMModel"
  by (metis model.exhaust)

lemma model_ex: "(\<exists>m. P m) \<longleftrightarrow> P MLModel \<or> P ARIMAModel \<or> P LSTMModel"
  by (metis model.exhaust)

lemma evaluate_loop_models:
  "evaluate_loop train models [] =
     concat (map (\<lambda>m. case score (train m) of None \<Rightarrow> [] | Some mt \<Rightarrow> [(name m, m, mt)])
               models)"
  by (simp add: models_def evaluate_loop_step del: evaluate_loop.simps(2) split: option.splits)

lemma survivor_core:
  assumes "score (train_of ml arima lstm m0) \<noteq> None"
  shows "\<exists>best bm. evaluate_models ml arima lstm =
           Inr (best, name best, bm,
                concat (map (\<lambda>m. case score (train_of ml arima lstm m) of
                                     None \<Rightarrow> [] | Some mt \<Rightarrow> [(name m, mt)]) models)) \<and>
         score (train_of ml arima lstm best) = Some bm"
proof -
  from assms have "score ml \<noteq> None \<or> score arima \<noteq> None \<or> score lstm \<noteq> None"
    by (cases m0) auto
  then show ?thesis
    apply (cases "score ml"; cases "score arima"; cases "score lstm")
    apply (simp_all add: evaluate_models_def evaluate_loop_models)
    apply (auto simp: models_def rmse_of_def py_less_def dict_get_def model_ex Let_def
        split: option.splits)
    done
qed

lemma select_core:
  assumes ok: "\<forall>m mt. score (train_of ml arima lstm m) = Some mt \<longrightarrow> RMSE mt \<noteq> None"
    and some: "score (train_of ml arima lstm m0) \<noteq> None"
  shows "\<exists>best bm rb all_metrics.
           evaluate_models ml arima lstm = Inr (best, name best, bm, all_metrics) \<and>
           score (train_of ml arima lstm best) = Some bm \<and> RMSE bm = Some rb \<and>
           (\<forall>m mt. score (train_of ml arima lstm m) = Some mt \<longrightarrow>
              (\<exists>r. RMSE mt = Some r \<and> rb \<le> r \<and> (place m < place best \<longrightarrow> rb < r)))"
proof -
  from some have some': "score ml \<noteq> None \<or> score arima \<noteq> None \<or> score lstm \<noteq> None"
    by (cases m0) auto
  from ok have ok': "\<forall>mt. score ml = Some mt \<longrightarrow> RMSE mt \<noteq> None"
    "\<forall>mt. score arima = Some mt \<longrightarrow> RMSE mt \<noteq> None"
    "\<forall>mt. score lstm = Some mt \<longrightarrow> RMSE mt \<noteq> None"
    by (simp_all add: model_all)
  show ?thesis
    using some' ok'
    apply (cases "score ml"; cases "score arima"; cases "score lstm")
    apply (simp_all add: evaluate_models_def evaluate_loop_models)
    apply (auto simp: models_def rmse_of_def py_less_def
        dict_get_def place_simps model_all model_ex Let_def)
    done
qed

lemma all_fail:
  assumes "score ml = None" "score arima = None" "score lstm = None"
  shows "evaluate_models ml arima lstm = Inl ValueError"
  using assms by (simp add: evaluate_models_def evaluate_loop_models) (simp add: models_def)

lemma score_Inl: "score (Inl e) = None"
  by (simp add: score_def)

lemma score_same_span:
  assumes "same_span outcome"
  shows "score outcome = None \<longleftrightarrow> isl outcome"
  using assms
  by (cases outcome)
    (auto simp: score_def same_span_def calculate_metrics_def np_broadcast_def Let_def
      split: sum.splits)

lemma held_out_same_span: "held_out outcome \<Longrightarrow> same_span outcome"
  by (auto simp: held_out_def same_span_def split: sum.splits)

lemma score_held_out:
  assumes "held_out outcome" "score outcome = Some mt"
  shows "RMSE mt \<noteq> None"
  using assms
  by (cases outcome)
    (auto simp: score_def held_out_def calculate_metrics_def np_broadcast_def np_mean_def Let_def
      split: sum.splits)

lemma survivors_names:
  assumes "same_span ml" "same_span arima" "same_span lstm"
  shows "map fst (concat (map (\<lambda>m. case score (train_of ml arima lstm m) of
                                     None \<Rightarrow> [] | Some mt \<Rightarrow> [(name m, mt)]) models)) =
         map name (filter (\<lambda>m. \<not> isl (train_of ml arima lstm m)) models)"
  using score_same_span[OF assms(1)] score_same_span[OF assms(2)] score_same_span[OF assms(3)]
  by (auto simp: models_def split: option.splits)

text \<open>
  Claim C1, as stated, fails on the order of the tie-break: the list \<open>models\<close>
  starts with the tree ensemble, not with the statistical model. When both
  have RMSE 0 and the recurrent model has RMSE 1, the harness selects the tree
  ensemble ("Random Forest"), where the claim's order selects the statistical
  model.
\<close>

theorem tie_break_counterexample:
  "evaluate_models (Inr ([1], [1])) (Inr ([1], [1])) (Inr ([1], [2])) =
     Inr (MLModel, ''Random Forest'',
          \<lparr>RMSE = Some 0, MAE = Some 0, MAPE = Some 0, R2 = 0\<rparr>,
          [(''Random Forest'', \<lparr>RMSE = Some 0, MAE = Some 0, MAPE = Some 0, R2 = 0\<rparr>),
           (''ARIMA'', \<lparr>RMSE = Some 0, MAE = Some 0, MAPE = Some 0, R2 = 0\<rparr>),
           (''LSTM'', \<lparr>RMSE = Some 1, MAE = Some 1, MAPE = Some 100, R2 = 0\<rparr>)])"
  by (simp add: evaluate_models_def models_def calculate_metrics_def np_broadcast_def
      np_mean_def ss_tot_def rmse_of_def py_less_def dict_get_def Let_def)

text \<open>
  Claim C1, amended. The enumeration order is tree ensemble, statistical,
  recurrent. Whenever the trains that succeed return non-empty held-out arrays
  with as many predictions, and at least one train succeeds, the harness
  returns a model whose train succeeded, with its name and metrics; its RMSE is
  at most the RMSE of every model whose train succeeded and strictly below the
  RMSE of each such model placed before it. So the first model with the
  minimal RMSE wins, and nothing but the RMSE values and the places decides.
\<close>

theorem evaluate_models_selects_first_minimal_rmse:
  assumes "held_out ml" and "held_out arima" and "held_out lstm"
    and "\<not> (isl ml \<and> isl arima \<and> isl lstm)"
  shows "map name models = [''Random Forest'', ''ARIMA'', ''LSTM''] \<and>
         map place models = [0, 1, 2] \<and>
         (\<exists>best bm rb all_metrics.
            evaluate_models ml arima lstm = Inr (best, name best, bm, all_metrics) \<and>
            score (train_of ml arima lstm best) = Some bm \<and> RMSE bm = Some rb \<and>
            (\<forall>m mt. score (train_of ml arima lstm m) = Some mt \<longrightarrow>
               (\<exists>r. RMSE mt = Some r \<and> rb \<le> r \<and> (place m < place best \<longrightarrow> rb < r))))"
proof -
  have ok: "\<forall>m mt. score (train_of ml arima lstm m) = Some mt \<longrightarrow> RMSE mt \<noteq> None"
    using assms(1-3) score_held_out by (simp add: model_all)
  from assms(4) have "\<exists>m0. \<not> isl (train_of ml arima lstm m0)"
    by (simp add: model_ex)
  then obtain m0 where "\<not> isl (train_of ml arima lstm m0)" ..
  moreover have "same_span (train_of ml arima lstm m0)"
    using assms(1-3) held_out_same_span by (cases m0) auto
  ultimately have "score (train_of ml arima lstm m0) \<noteq> None"
    using score_same_span by blast
  from select_core[OF ok this] show ?thesis
    by (simp add: models_def place_simps)
qed

theorem evaluate_models_selects_first_minimal_rmse_witness:
  "held_out (Inr ([1, 2], [1, 3])) \<and> held_out (Inl LibraryError) \<and>
   held_out (Inr ([1, 2], [1, 2])) \<and>
   \<not> (isl (Inr ([1, 2], [1, 3]) :: train_outcome) \<and> isl (Inl LibraryError :: train_outcome) \<and>
      isl (Inr ([1, 2], [1, 2]) :: train_outcome)) \<and>
   (\<exists>best bm rb all_metrics.
      evaluate_models (Inr ([1, 2], [1, 3])) (Inl LibraryError) (Inr ([1, 2], [1, 2])) =
        Inr (best, name best, bm, all_metrics) \<and>
      score (train_of (Inr ([1, 2], [1, 3])) (Inl LibraryError) (Inr ([1, 2], [1, 2])) best) =
        Some bm \<and>
      RMSE bm = Some rb \<and>
      (\<forall>m mt. score (train_of (Inr ([1, 2], [1, 3])) (Inl LibraryError) (Inr ([1, 2], [1, 2])) m) =
                 Some mt \<longrightarrow>
         (\<exists>r. RMSE mt = Some r \<and> rb \<le> r \<and> (place m < place best \<longrightarrow> rb < r))))"
proof -
  have h1: "held_out (Inr ([1, 2], [1, 3]))" by (simp add: held_out_def)
  have h2: "held_out (Inl LibraryError)" by (simp add: held_out_def)
  have h3: "held_out (Inr ([1, 2], [1, 2]))" by (simp add: held_out_def)
  have h4: "\<not> (isl (Inr ([1, 2], [1, 3]) :: train_outcome) \<and>
               isl (Inl LibraryError :: train_outcome) \<and>
               isl (Inr ([1, 2], [1, 2]) :: train_outcome))" by simp
  from evaluate_models_selects_first_minimal_rmse[OF h1 h2 h3 h4] h1 h2 h3 h4
  show ?thesis by blast
qed

text \<open>
  Claim C5. Whenever every train that succeeds returns as many predictions as
  held-out values, the harness fails, with its \<open>ValueError\<close>, if and only if
  the train of every model raised. Otherwise it returns a model whose train
  did not raise, and the metrics it reports are those of exactly the models
  whose train did not raise, in the order of the list: a train that raises
  removes its own model and no other.
\<close>

theorem evaluate_models_isolates_failures:
  assumes "same_span ml" and "same_span arima" and "same_span lstm"
  shows "(isl (evaluate_models ml arima lstm) \<longleftrightarrow> isl ml \<and> isl arima \<and> isl lstm) \<and>
         (isl ml \<and> isl arima \<and> isl lstm \<longrightarrow> evaluate_models ml arima lstm = Inl ValueError) \<and>
         (\<not> (isl ml \<and> isl arima \<and> isl lstm) \<longrightarrow>
            (\<exists>best bm all_metrics.
               evaluate_models ml arima lstm = Inr (best, name best, bm, all_metrics) \<and>
               \<not> isl (train_of ml arima lstm best) \<and>
               map fst all_metrics =
                 map name (filter (\<lambda>m. \<not> isl (train_of ml arima lstm m)) models)))"
proof (cases "isl ml \<and> isl arima \<and> isl lstm")
  case True
  then have "score ml = None" "score arima = None" "score lstm = None"
    using assms score_same_span by blast+
  then have "evaluate_models ml arima lstm = Inl ValueError" by (rule all_fail)
  with True show ?thesis by simp
next
  case False
  then have "\<exists>m0. \<not> isl (train_of ml arima lstm m0)"
    by (simp add: model_ex)
  then obtain m0 where m0: "\<not> isl (train_of ml arima lstm m0)" ..
  have span: "same_span (train_of ml arima lstm m)" for m
    using assms by (cases m) auto
  from m0 span have "score (train_of ml arima lstm m0) \<noteq> None"
    using score_same_span by blast
  from survivor_core[OF this] obtain best bm where
    ev: "evaluate_models ml arima lstm =
           Inr (best, name best, bm,
                concat (map (\<lambda>m. case score (train_of ml arima lstm m) of
                                     None \<Rightarrow> [] | Some mt \<Rightarrow> [(name m, mt)]) models))"
    and sc: "score (train_of ml arima lstm best) = Some bm"
    by blast
  have "\<not> isl (train_of ml arima lstm best)"
  proof
    assume "isl (train_of ml arima lstm best)"
    with score_same_span[OF span[of best]] have "score (train_of ml arima lstm best) = None"
      by simp
    with sc show False by simp
  qed
  with ev survivors_names[OF assms] False show ?thesis by simp
qed

theorem evaluate_models_isolates_failures_witness:
  "same_span (Inl LibraryError) \<and> same_span (Inl ValueError) \<and> same_span (Inr ([3, 4], [3, 5])) \<and>
   \<not> isl (evaluate_models (Inl LibraryError) (Inl ValueError) (Inr ([3, 4], [3, 5]))) \<and>
   (\<exists>best bm all_metrics.
      evaluate_models (Inl LibraryError) (Inl ValueError) (Inr ([3, 4], [3, 5])) =
        Inr (best, name best, bm, all_metrics) \<and>
      \<not> isl (train_of (Inl LibraryError) (Inl ValueError) (Inr ([3, 4], [3, 5])) best) \<and>
      map fst all_metrics = [''LSTM'']) \<and>
   evaluate_models (Inl LibraryError) (Inl ValueError) (Inl LibraryError) = Inl ValueError"
proof -
  have h1: "same_span (Inl LibraryError)" by (simp add: same_span_def)
  have h2: "same_span (Inl ValueError)" by (simp add: same_span_def)
  have h3: "same_span (Inr ([3, 4], [3, 5]))" by (simp add: same_span_def)
  from evaluate_models_isolates_failures[OF h1 h2 h3]
    evaluate_models_isolates_failures[OF h1 h2 h1] h1 h2 h3
  show ?thesis by (simp add: models_def)
qed

section \<open>Properties of the statistical model\<close>

lemma fallback_chain_props:
  assumes "chain \<noteq> []" "fallback_chain run chain = (tried, res)"
  shows "tried \<noteq> [] \<and> take (length tried) chain = tried \<and>
         (\<forall>i. i + 1 < length tried \<longrightarrow> isl (run (tried ! i))) \<and>
         res = run (last tried) \<and> (isl res \<longrightarrow> tried = chain)"
  using assms
proof (induction run chain arbitrary: tried res rule: fallback_chain.induct)
  case (1 run)
  then show ?case by simp
next
  case (2 run c)
  then show ?case by auto
next
  case (3 run c v va)
  show ?case
  proof (cases "run c")
    case (Inr r)
    with "3.prems" have "tried = [c]" "res = Inr r" by simp_all
    with Inr show ?thesis by simp
  next
    case (Inl e)
    obtain tried' res' where t: "fallback_chain run (v # va) = (tried', res')"
      by (cases "fallback_chain run (v # va)")
    from "3.IH"[OF Inl _ t] have ih: "tried' \<noteq> []" "take (length tried') (v # va) = tried'"
      "\<forall>i. i + 1 < length tried' \<longrightarrow> isl (run (tried' ! i))"
      "res' = run (last tried')" "isl res' \<longrightarrow> tried' = v # va" by simp_all
    from "3.prems" Inl t have e: "tried = c # tried'" "res = res'" by simp_all
    have "\<forall>i. i + 1 < length tried \<longrightarrow> isl (run (tried ! i))"
    proof (intro allI impI)
      fix i assume "i + 1 < length tried"
      then show "isl (run (tried ! i))" using ih(3) e Inl by (cases i) auto
    qed
    with ih e show ?thesis by auto
  qed
qed

lemma arima_train_chain:
  assumes "arima_train lib self prices test_size = (self1, tried, res)"
  shows "\<exists>r. fallback_chain
               (\<lambda>c. lib c (train_part prices test_size)
                      (int (length (test_part prices test_size))))
               [ARIMA (order self), ARIMA (1, 1, 1)] = (tried, r) \<and>
             res = (case r of Inl e \<Rightarrow> Inl ValueError
                    | Inr f \<Rightarrow> Inr (test_part prices test_size, f)) \<and>
             order self1 = (if length tried = 1 then order self else (1, 1, 1))"
  using assms by (auto simp: arima_train_def Let_def split: sum.splits)

lemma arima_predict_chain:
  assumes "arima_predict lib self prices days = (self1, tried, res)"
  shows "fallback_chain (\<lambda>c. lib c prices days)
           [ARIMA (order self), ARIMA (1, 1, 1), ExponentialSmoothing ''add'' None] =
           (tried, res) \<and>
         order self1 = (if length tried = 1 then order self else (1, 1, 1))"
  using assms by (auto simp: arima_predict_def Let_def split: sum.splits)

text \<open>
  Claim C7, as stated, fails on the first step of \<open>predict\<close>. The fallback of
  \<open>train\<close> assigns the order (1, 1, 1) to the instance, and \<open>predict\<close> starts
  from the order of the instance. With a library that cannot fit the default
  order, \<open>train\<close> on the series 1, ..., 10 leaves the order (1, 1, 1), and the
  only fit that \<open>predict\<close> then requests is of order (1, 1, 1): the default
  order is not attempted.
\<close>

theorem default_order_counterexample:
  "arima_train rejects_default ARIMAModel_init [1, 2, 3, 4, 5, 6, 7, 8, 9, 10] (1 / 5) =
     (\<lparr>order = (1, 1, 1)\<rparr>, [ARIMA (5, 1, 0), ARIMA (1, 1, 1)], Inr ([9, 10], [8, 8])) \<and>
   arima_predict rejects_default \<lparr>order = (1, 1, 1)\<rparr> [1, 2, 3, 4, 5, 6, 7, 8, 9, 10] 3 =
     (\<lparr>order = (1, 1, 1)\<rparr>, [ARIMA (1, 1, 1)], Inr [10, 10, 10])"
  by (simp add: arima_train_def arima_predict_def rejects_default_def ARIMAModel_init_def
      train_part_def test_part_def py_int_def slice_to_def slice_from_def Let_def
      numeral_3_eq_3)

text \<open>
  Claim C7, amended. A new instance has the default order (5, 1, 0). \<open>train\<close>
  and \<open>predict\<close> request fits in this order, each only if the one before
  raised: (1) the order the instance holds, which is the default until a
  fallback on this instance has replaced it by (1, 1, 1); (2) the order
  (1, 1, 1), which the instance keeps; (3) in \<open>predict\<close> only, exponential
  smoothing with additive trend and no seasonal component. The outcome is
  that of the last fit requested; \<open>train\<close> fails, with a \<open>ValueError\<close>, only
  when both of its fits raised, and \<open>predict\<close> only with the exception of the
  exponential smoothing.
\<close>

theorem statistical_fallback_chain:
  assumes "arima_train lib self prices test_size = (self1, tried1, res1)"
    and "arima_predict lib self prices days = (self2, tried2, res2)"
  shows "order ARIMAModel_init = (5, 1, 0) \<and>
         (\<exists>r. fallback_chain
                (\<lambda>c. lib c (train_part prices test_size)
                       (int (length (test_part prices test_size))))
                [ARIMA (order self), ARIMA (1, 1, 1)] = (tried1, r) \<and>
              res1 = (case r of Inl e \<Rightarrow> Inl ValueError
                      | Inr f \<Rightarrow> Inr (test_part prices test_size, f)) \<and>
              (\<forall>i. i + 1 < length tried1 \<longrightarrow>
                 isl (lib (tried1 ! i) (train_part prices test_size)
                        (int (length (test_part prices test_size))))) \<and>
              r = lib (last tried1) (train_part prices test_size)
                    (int (length (test_part prices test_size))) \<and>
              (isl res1 \<longrightarrow> tried1 = [ARIMA (order self), ARIMA (1, 1, 1)])) \<and>
         tried1 \<noteq> [] \<and> take (length tried1) [ARIMA (order self), ARIMA (1, 1, 1)] = tried1 \<and>
         order self1 = (if length tried1 = 1 then order self else (1, 1, 1)) \<and>
         fallback_chain (\<lambda>c. lib c prices days)
           [ARIMA (order self), ARIMA (1, 1, 1), ExponentialSmoothing ''add'' None] =
           (tried2, res2) \<and>
         tried2 \<noteq> [] \<and>
         take (length tried2)
           [ARIMA (order self), ARIMA (1, 1, 1), ExponentialSmoothing ''add'' None] = tried2 \<and>
         (\<forall>i. i + 1 < length tried2 \<longrightarrow> isl (lib (tried2 ! i) prices days)) \<and>
         res2 = lib (last tried2) prices days \<and>
         (isl res2 \<longrightarrow>
            tried2 = [ARIMA (order self), ARIMA (1, 1, 1), ExponentialSmoothing ''add'' None]) \<and>
         order self2 = (if length tried2 = 1 then order self else (1, 1, 1))"
proof -
  from arima_train_chain[OF assms(1)] obtain r where
    t: "fallback_chain
          (\<lambda>c. lib c (train_part prices test_size) (int (length (test_part prices test_size))))
          [ARIMA (order self), ARIMA (1, 1, 1)] = (tried1, r)"
       "res1 = (case r of Inl e \<Rightarrow> Inl ValueError
                | Inr f \<Rightarrow> Inr (test_part prices test_size, f))"
       "order self1 = (if length tried1 = 1 then order self else (1, 1, 1))"
    by blast
  have ne1: "[ARIMA (order self), ARIMA (1, 1, 1)] \<noteq> []" by simp
  note p1 = fallback_chain_props[OF ne1 t(1)]
  from t(2) have f1: "isl res1 \<longrightarrow> isl r" by (cases r) auto
  from arima_predict_chain[OF assms(2)] have
    u: "fallback_chain (\<lambda>c. lib c prices days)
          [ARIMA (order self), ARIMA (1, 1, 1), ExponentialSmoothing ''add'' None] =
          (tried2, res2)"
       "order self2 = (if length tried2 = 1 then order self else (1, 1, 1))"
    by simp_all
  have ne2: "[ARIMA (order self), ARIMA (1, 1, 1), ExponentialSmoothing ''add'' None] \<noteq> []"
    by simp
  note p2 = fallback_chain_props[OF ne2 u(1)]
  have "order ARIMAModel_init = (5, 1, 0)" by (simp add: ARIMAModel_init_def)
  with t p1 f1 u p2 show ?thesis by blast
qed

theorem statistical_fallback_chain_witness:
  "arima_train rejects_default ARIMAModel_init [1, 2, 3, 4, 5, 6, 7, 8, 9, 10] (1 / 5) =
     (\<lparr>order = (1, 1, 1)\<rparr>, [ARIMA (5, 1, 0), ARIMA (1, 1, 1)], Inr ([9, 10], [8, 8])) \<and>
   arima_predict rejects_default ARIMAModel_init [1, 2, 3, 4, 5, 6, 7, 8, 9, 10] 3 =
     (\<lparr>order = (1, 1, 1)\<rparr>, [ARIMA (5, 1, 0), ARIMA (1, 1, 1)], Inr [10, 10, 10]) \<and>
   fallback_chain (\<lambda>c. rejects_default c [1, 2, 3, 4, 5, 6, 7, 8, 9, 10] 3)
     [ARIMA (order ARIMAModel_init), ARIMA (1, 1, 1), ExponentialSmoothing ''add'' None] =
     ([ARIMA (5, 1, 0), ARIMA (1, 1, 1)], Inr [10, 10, 10]) \<and>
   isl (rejects_default ([ARIMA (5, 1, 0), ARIMA (1, 1, 1)] ! 0) [1, 2, 3, 4, 5, 6, 7, 8, 9, 10] 3)"
proof -
  have h1: "arima_train rejects_default ARIMAModel_init [1, 2, 3, 4, 5, 6, 7, 8, 9, 10] (1 / 5) =
     (\<lparr>order = (1, 1, 1)\<rparr>, [ARIMA (5, 1, 0), ARIMA (1, 1, 1)], Inr ([9, 10], [8, 8]))"
    by (simp add: arima_train_def rejects_default_def ARIMAModel_init_def
        train_part_def test_part_def py_int_def slice_to_def slice_from_def Let_def)
  have h2: "arima_predict rejects_default ARIMAModel_init [1, 2, 3, 4, 5, 6, 7, 8, 9, 10] 3 =
     (\<lparr>order = (1, 1, 1)\<rparr>, [ARIMA (5, 1, 0), ARIMA (1, 1, 1)], Inr [10, 10, 10])"
    by (simp add: arima_predict_def rejects_default_def ARIMAModel_init_def Let_def
        numeral_3_eq_3)
  note th = statistical_fallback_chain[OF h1 h2]
  from th have a: "fallback_chain (\<lambda>c. rejects_default c [1, 2, 3, 4, 5, 6, 7, 8, 9, 10] 3)
     [ARIMA (order ARIMAModel_init), ARIMA (1, 1, 1), ExponentialSmoothing ''add'' None] =
     ([ARIMA (5, 1, 0), ARIMA (1, 1, 1)], Inr [10, 10, 10])"
    by blast
  from th have b: "\<forall>i. i + 1 < length [ARIMA (5, 1, 0), ARIMA (1, 1, 1)] \<longrightarrow>
      isl (rejects_default ([ARIMA (5, 1, 0), ARIMA (1, 1, 1)] ! i)
             [1, 2, 3, 4, 5, 6, 7, 8, 9, 10] 3)"
    by blast
  have "0 + 1 < length [ARIMA (5, 1, 0), ARIMA (1, 1, 1)]" by simp
  with b have c: "isl (rejects_default ([ARIMA (5, 1, 0), ARIMA (1, 1, 1)] ! 0)
             [1, 2, 3, 4, 5, 6, 7, 8, 9, 10] 3)"
    by blast
  from h1 h2 a c show ?thesis by blast
qed

section \<open>Properties of the tree-ensemble model\<close>

lemma list_of_length_10:
  assumes "length (xs :: 'a list) = 10"
  shows "\<exists>a0 a1 a2 a3 a4 a5 a6 a7 a8 a9. xs = [a0, a1, a2, a3, a4, a5, a6, a7, a8, a9]"
  using assms by (auto simp: eval_nat_numeral length_Suc_conv)

lemma shift_lags_eq:
  assumes "10 \<le> length row"
  shows "shift_lags row p = p # take 9 row @ drop 10 row"
proof -
  have l: "length (take 10 row) = 10" using assms by simp
  from list_of_length_10[OF this] obtain a0 a1 a2 a3 a4 a5 a6 a7 a8 a9 where
    t: "take 10 row = [a0, a1, a2, a3, a4, a5, a6, a7, a8, a9]"
    by blast
  have "row = take 10 row @ drop 10 row" by simp
  with t have r: "row = [a0, a1, a2, a3, a4, a5, a6, a7, a8, a9] @ drop 10 row" by simp
  have "shift_lags ([a0, a1, a2, a3, a4, a5, a6, a7, a8, a9] @ rest) p =
          p # take 9 ([a0, a1, a2, a3, a4, a5, a6, a7, a8, a9] @ rest) @ rest" for rest
    by (simp add: shift_lags_def upt_conv_Cons)
  from this[of "drop 10 row"] have
    "shift_lags ([a0, a1, a2, a3, a4, a5, a6, a7, a8, a9] @ drop 10 row) p =
       p # take 9 ([a0, a1, a2, a3, a4, a5, a6, a7, a8, a9] @ drop 10 row) @ drop 10 row" .
  then show ?thesis unfolding r[symmetric] .
qed

lemma length_feature_row: "length (feature_row lags prices t) = lags + 5"
  by (simp add: feature_row_def)

lemma predict_loop_rollout:
  assumes "scaler self = Some sc" "model self = Some f"
    "length row = length (scaler_mean sc)" "10 \<le> length row"
  shows "predict_loop self [row] n = Inr (rollout sc f row n)"
  using assms(3,4)
proof (induction n arbitrary: row)
  case 0
  show ?case by simp
next
  case (Suc n)
  let ?p = "f (scale_row sc row)"
  have len: "length (?p # take 9 row @ drop 10 row) = length row"
    using Suc.prems(2) by simp
  have "predict_loop self [?p # take 9 row @ drop 10 row] n =
          Inr (rollout sc f (?p # take 9 row @ drop 10 row) n)"
    using Suc.prems by (intro Suc.IH) (simp_all only: len)
  then show ?case
    using assms(1,2) Suc.prems
    by (simp add: scaler_transform_def shift_lags_eq Let_def)
qed

lemma take_10_snoc:
  assumes "10 \<le> length B"
  shows "take 10 (B @ C) = take 10 B"
  using assms by simp

lemma rollout_rows:
  assumes "10 \<le> length row" "k < n"
  shows "rollout sc f row n ! k =
           f (scale_row sc
                (take 10 (rev (take k (rollout sc f row n)) @ take 10 row) @ drop 10 row))"
  using assms
proof (induction n arbitrary: row k)
  case 0
  then show ?case by simp
next
  case (Suc n)
  let ?p = "f (scale_row sc row)"
  let ?row1 = "?p # take 9 row @ drop 10 row"
  let ?rest = "rollout sc f ?row1 n"
  have r: "rollout sc f row (Suc n) = ?p # ?rest" by (simp add: Let_def)
  show ?case
  proof (cases k)
    case 0
    then show ?thesis by (simp add: Let_def)
  next
    case (Suc j)
    with Suc.prems have j: "j < n" by simp
    have l1: "10 \<le> length ?row1" using Suc.prems(1) by simp
    have t1: "take 10 ?row1 = ?p # take 9 row" using Suc.prems(1) by simp
    have d1: "drop 10 ?row1 = drop 10 row" using Suc.prems(1) by simp
    have t10: "take 10 row = take 9 row @ [row ! 9]"
      using Suc.prems(1) by (simp add: take_Suc_conv_app_nth eval_nat_numeral)
    have "take 10 (rev (take j ?rest) @ ?p # take 10 row) =
            take 10 ((rev (take j ?rest) @ ?p # take 9 row) @ [row ! 9])"
      by (simp add: t10)
    also have "\<dots> = take 10 (rev (take j ?rest) @ ?p # take 9 row)"
      using Suc.prems(1) by (intro take_10_snoc) simp
    finally have e: "take 10 (rev (take j ?rest) @ ?p # take 10 row) =
            take 10 (rev (take j ?rest) @ ?p # take 9 row)" .
    from Suc.IH[OF l1 j] have
      "?rest ! j = f (scale_row sc (take 10 (rev (take j ?rest) @ take 10 ?row1) @ drop 10 ?row1))" .
    then have "?rest ! j =
        f (scale_row sc (take 10 (rev (take j ?rest) @ ?p # take 9 row) @ drop 10 row))"
      by (simp only: t1 d1)
    with e Suc r show ?thesis by simp
  qed
qed

lemma length_rollout: "length (rollout sc f row n) = n"
  by (induction n arbitrary: row) (simp_all add: Let_def)

lemma create_features_width:
  assumes "create_features df lags = Some data" "r \<in> set data"
  shows "length (snd r) = lags + 5"
  using assms by (auto simp: create_features_def Let_def length_feature_row split: if_splits)

lemma create_features_positive:
  assumes "\<forall>p\<in>set df. 0 < p"
  shows "create_features df lags =
           Some (map (\<lambda>t. (df ! t, feature_row lags df t)) [max lags 29 ..< length df])"
proof -
  have "df ! (t - 5) \<noteq> 0" if "t \<in> set [max lags 29 ..< length df]" for t
  proof -
    from that have "t < length df" by simp
    then have "t - 5 < length df" by arith
    then have "df ! (t - 5) \<in> set df" by (rule nth_mem)
    with assms show ?thesis by fastforce
  qed
  then show ?thesis by (simp add: create_features_def Let_def)
qed

lemma drop_to_last:
  assumes "xs \<noteq> []"
  shows "slice_from (- 1) xs = [last xs]"
  using assms by (cases xs rule: rev_cases) (simp_all add: slice_from_def)

lemma scaler_fit_width:
  assumes "scaler_fit X = Inr sc"
  shows "X \<noteq> [] \<and> length (scaler_mean sc) = length (hd X) \<and>
         length (scaler_scale sc) = length (hd X)"
  using assms by (cases X) (auto simp: scaler_fit_def)

lemma ml_train_result:
  assumes "ml_train rf_fit self0 df test_size = Some (self, Inr out)"
  shows "\<exists>data sc f.
           create_features df 10 = Some data \<and>
           scaler_fit (slice_to (py_int (real (length data) * (1 - test_size))) (map snd data)) =
             Inr sc \<and>
           scaler self = Some sc \<and> model self = Some f"
proof -
  from assms obtain data where d: "create_features df 10 = Some data"
    by (cases "create_features df 10") (simp_all add: ml_train_def)
  let ?k = "py_int (real (length data) * (1 - test_size))"
  let ?Xtr = "slice_to ?k (map snd data)"
  let ?Xte = "slice_from ?k (map snd data)"
  from assms d obtain sc where sc: "scaler_fit ?Xtr = Inr sc"
    by (cases "scaler_fit ?Xtr") (simp_all add: ml_train_def Let_def)
  from assms d sc obtain Xs where xs: "scaler_transform sc ?Xtr = Inr Xs"
    by (cases "scaler_transform sc ?Xtr") (simp_all add: ml_train_def Let_def)
  from assms d sc xs obtain Xt where xt: "scaler_transform sc ?Xte = Inr Xt"
    by (cases "scaler_transform sc ?Xte") (simp_all add: ml_train_def Let_def)
  from assms d sc xs xt obtain f where f: "rf_fit Xs (slice_to ?k (map fst data)) = Inr f"
    by (cases "rf_fit Xs (slice_to ?k (map fst data))") (simp_all add: ml_train_def Let_def)
  from assms d sc xs xt f have "self = self0\<lparr>scaler := Some sc, model := Some f\<rparr>"
    by (simp add: ml_train_def Let_def)
  with d sc show ?thesis by simp
qed

lemma slice_to_subset: "set (slice_to k xs) \<subseteq> set xs"
  by (auto simp: slice_to_def dest: in_set_takeD)

lemma slice_from_subset: "set (slice_from k xs) \<subseteq> set xs"
  by (auto simp: slice_from_def dest: in_set_dropD)

lemma train_scaler_width:
  assumes "create_features df 10 = Some data"
    "scaler_fit (slice_to k (map snd data)) = Inr sc"
  shows "length (scaler_mean sc) = 15"
proof -
  let ?X = "slice_to k (map snd data)"
  note fw = scaler_fit_width[OF assms(2)]
  from fw have ne: "?X \<noteq> []" by (rule conjunct1)
  from fw have w: "length (scaler_mean sc) = length (hd ?X)" by blast
  from ne have "hd ?X \<in> set ?X" by (rule hd_in_set)
  then have "hd ?X \<in> set (map snd data)" using slice_to_subset[of k "map snd data"] by (rule rev_subsetD)
  then have "hd ?X \<in> snd ` set data" by (simp only: set_map)
  then obtain r where r: "r \<in> set data" "hd ?X = snd r" by (rule imageE)
  from create_features_width[OF assms(1) r(1)] have "length (snd r) = 15" by simp
  with r(2) w show ?thesis by (simp only:)
qed

lemma ml_predict_rollout:
  assumes "create_features df 10 = Some data" "data \<noteq> []"
    "scaler self = Some sc" "model self = Some f" "length (scaler_mean sc) = 15"
  shows "ml_predict self df days = Some (Inr (rollout sc f (snd (last data)) (nat days)))"
proof -
  from assms(2) have l: "last (map snd data) = snd (last data)" by (simp add: last_map)
  from assms(2) have "last data \<in> set data" by simp
  from create_features_width[OF assms(1) this] have w: "length (snd (last data)) = 15" by simp
  from assms(2) have "slice_from (- 1) (map snd data) = [snd (last data)]"
    using drop_to_last[of "map snd data"] l by simp
  moreover have "predict_loop self [snd (last data)] (nat days) =
      Inr (rollout sc f (snd (last data)) (nat days))"
    using assms(3,4,5) w by (intro predict_loop_rollout) simp_all
  ultimately show ?thesis using assms(1) by (simp add: ml_predict_def)
qed


lemma ml_train_succeeds:
  assumes cf: "create_features df 10 = Some data"
    and tr: "slice_to (py_int (real (length data) * (1 - test_size))) (map snd data) \<noteq> []"
    and te: "slice_from (py_int (real (length data) * (1 - test_size))) (map snd data) \<noteq> []"
    and rf: "\<And>X y. rf_fit X y = Inr f"
  shows "\<exists>sc out.
           scaler_fit (slice_to (py_int (real (length data) * (1 - test_size))) (map snd data)) =
             Inr sc \<and>
           ml_train rf_fit self0 df test_size =
             Some (self0\<lparr>scaler := Some sc, model := Some f\<rparr>, Inr out)"
proof -
  let ?k = "py_int (real (length data) * (1 - test_size))"
  let ?Xtr = "slice_to ?k (map snd data)"
  let ?Xte = "slice_from ?k (map snd data)"
  from tr obtain sc where sc: "scaler_fit ?Xtr = Inr sc"
    by (cases ?Xtr) (simp_all add: scaler_fit_def)
  from train_scaler_width[OF cf sc] have w: "length (scaler_mean sc) = 15" .
  have wide: "length row = 15" if "row \<in> set (map snd data)" for row
  proof -
    from that have "row \<in> snd ` set data" by (simp only: set_map)
    then obtain r where "r \<in> set data" "row = snd r" by (rule imageE)
    with create_features_width[OF cf] show ?thesis by simp
  qed
  have "\<forall>row\<in>set ?Xtr. length row = length (scaler_mean sc)"
    using wide slice_to_subset[of ?k "map snd data"] w by (metis subsetD)
  with tr have xs: "scaler_transform sc ?Xtr = Inr (map (scale_row sc) ?Xtr)"
    by (simp add: scaler_transform_def)
  have "\<forall>row\<in>set ?Xte. length row = length (scaler_mean sc)"
    using wide slice_from_subset[of ?k "map snd data"] w by (metis subsetD)
  with te have xt: "scaler_transform sc ?Xte = Inr (map (scale_row sc) ?Xte)"
    by (simp add: scaler_transform_def)
  from cf sc xs xt rf have
    "ml_train rf_fit self0 df test_size =
       Some (self0\<lparr>scaler := Some sc, model := Some f\<rparr>,
             Inr (slice_from ?k (map fst data), map f (map (scale_row sc) ?Xte)))"
    by (simp add: ml_train_def Let_def)
  with sc show ?thesis by blast
qed

lemma last_feature_row:
  assumes "\<forall>p\<in>set df. 0 < p" "30 \<le> length df"
  shows "\<exists>data. create_features df 10 = Some data \<and> data \<noteq> [] \<and>
           snd (last data) = feature_row 10 df (length df - 1)"
proof -
  let ?data = "map (\<lambda>t. (df ! t, feature_row 10 df t)) [29 ..< length df]"
  from create_features_positive[OF assms(1), of 10] have cf: "create_features df 10 = Some ?data"
    by simp
  from assms(2) have lt: "29 < length df" by linarith
  then have ne: "[29 ..< length df] \<noteq> []" by auto
  then have "last ?data = (df ! last [29 ..< length df], feature_row 10 df (last [29 ..< length df]))"
    by (simp add: last_map)
  moreover from lt have "last [29 ..< length df] = length df - 1" by (rule last_upt)
  ultimately have "snd (last ?data) = feature_row 10 df (length df - 1)" by simp
  with cf ne show ?thesis by simp
qed

lemma feature_row_lag_1: "feature_row 10 prices t ! 0 = prices ! (t - 1)"
  by (simp add: feature_row_def nth_append)

lemma scale_row_lag_1:
  assumes "row \<noteq> []" "scaler_mean sc \<noteq> []" "scaler_scale sc \<noteq> []"
  shows "scale_row sc row ! 0 = (row ! 0 - scaler_mean sc ! 0) / scaler_scale sc ! 0"
proof -
  from assms obtain x xs m ms s ss where
    "row = x # xs" "scaler_mean sc = m # ms" "scaler_scale sc = s # ss"
    by (metis neq_Nil_conv)
  then show ?thesis by (simp add: scale_row_def)
qed

lemma scaler_fit_lag_1:
  assumes "scaler_fit (r # rs) = Inr sc" "r \<noteq> []"
  shows "scaler_mean sc \<noteq> [] \<and> scaler_scale sc \<noteq> [] \<and>
         scaler_mean sc ! 0 = column_mean (r # rs) 0 \<and>
         scaler_scale sc ! 0 =
           (if column_var (r # rs) 0 = 0 then 1 else sqrt (column_var (r # rs) 0))"
proof -
  from assms(2) have l: "0 < length r" by simp
  from assms(1) have sc: "sc = \<lparr>scaler_mean = map (column_mean (r # rs)) [0 ..< length r],
      scaler_scale = map (\<lambda>j. if column_var (r # rs) j = 0 then 1
                               else sqrt (column_var (r # rs) j)) [0 ..< length r]\<rparr>"
    by (simp add: scaler_fit_def)
  from l show ?thesis unfolding sc by (simp del: upt_Suc)
qed

lemma example_features:
  "create_features example_series 10 =
     Some (map (\<lambda>t. (example_series ! t, feature_row 10 example_series t))
             [29, 30, 31, 32, 33, 34])"
proof -
  have pos: "\<forall>p\<in>set example_series. 0 < p" by (simp add: example_series_def nth_append)
  have len: "length example_series = 35" by (simp add: example_series_def nth_append)
  from create_features_positive[OF pos, of 10] len show ?thesis
    by (simp add: upt_conv_Cons)
qed

lemma example_split: "py_int (real (6::nat) * (1 - 1 / 5)) = 4"
  by (simp add: py_int_def)

lemma example_train:
  "\<exists>sc out.
     scaler_fit (map (feature_row 10 example_series) [29, 30, 31, 32]) = Inr sc \<and>
     ml_train stump_library MLModel_init example_series (1 / 5) =
       Some (\<lparr>scaler = Some sc, model = Some stump\<rparr>, Inr out)"
proof -
  let ?data = "map (\<lambda>t. (example_series ! t, feature_row 10 example_series t))
                 [29, 30, 31, 32, 33, 34]"
  have k: "py_int (real (length ?data) * (1 - 1 / 5)) = 4"
    using example_split by simp
  have tr: "slice_to (py_int (real (length ?data) * (1 - 1 / 5))) (map snd ?data) =
              map (feature_row 10 example_series) [29, 30, 31, 32]"
    unfolding k by (simp add: slice_to_def)
  have te: "slice_from (py_int (real (length ?data) * (1 - 1 / 5))) (map snd ?data) =
              map (feature_row 10 example_series) [33, 34]"
    unfolding k by (simp add: slice_from_def)
  have tr': "slice_to (py_int (real (length ?data) * (1 - 1 / 5))) (map snd ?data) \<noteq> []"
    unfolding tr by simp
  have te': "slice_from (py_int (real (length ?data) * (1 - 1 / 5))) (map snd ?data) \<noteq> []"
    unfolding te by simp
  have rf: "\<And>X y. stump_library X y = Inr stump" by (simp add: stump_library_def)
  from ml_train_succeeds[OF example_features tr' te' rf, where ?self0.0 = MLModel_init]
  show ?thesis unfolding tr by (simp add: MLModel_init_def)
qed

lemma train_column:
  "column (map (feature_row 10 example_series) [29, 30, 31, 32]) 0 = [1, 1, 1, 3]"
  by (simp add: column_def feature_row_lag_1) (simp add: example_series_def nth_append)

lemma whole_column:
  "column (map (feature_row 10 example_series) [29, 30, 31, 32, 33, 34]) 0 = [1, 1, 1, 3, 10, 2]"
  by (simp add: column_def feature_row_lag_1) (simp add: example_series_def nth_append)

lemma last_lag_1: "feature_row 10 example_series 34 ! 0 = 2"
  by (simp add: feature_row_lag_1) (simp add: example_series_def nth_append)

lemma feature_row_not_Nil: "feature_row 10 prices t \<noteq> []"
  by (simp add: feature_row_def)

lemma stump_with_train_scaler:
  assumes "scaler_fit (map (feature_row 10 example_series) [29, 30, 31, 32]) = Inr sc"
  shows "stump (scale_row sc (feature_row 10 example_series 34)) = 7"
proof -
  let ?X = "map (feature_row 10 example_series) [29, 30, 31, 32]"
  have X: "?X = feature_row 10 example_series 29 # map (feature_row 10 example_series) [30, 31, 32]"
    by simp
  from scaler_fit_lag_1[OF assms[unfolded X] feature_row_not_Nil] have
    ne: "scaler_mean sc \<noteq> []" "scaler_scale sc \<noteq> []" and
    m: "scaler_mean sc ! 0 = column_mean ?X 0" and
    s: "scaler_scale sc ! 0 = (if column_var ?X 0 = 0 then 1 else sqrt (column_var ?X 0))"
    unfolding X by simp_all
  have cm: "column_mean ?X 0 = 3 / 2" by (simp only: column_mean_def train_column) simp
  have cv: "column_var ?X 0 = 3 / 4"
    by (simp only: column_var_def train_column cm) (simp add: power2_eq_square)
  have m': "scaler_mean sc ! 0 = 3 / 2" unfolding m cm ..
  have s': "scaler_scale sc ! 0 = sqrt (3 / 4)" unfolding s cv by simp
  have "0 < sqrt (3 / 4 :: real)" by simp
  moreover have "scale_row sc (feature_row 10 example_series 34) ! 0 = (2 - 3 / 2) / sqrt (3 / 4)"
    unfolding scale_row_lag_1[OF feature_row_not_Nil ne] m' s' last_lag_1 ..
  ultimately have "0 < scale_row sc (feature_row 10 example_series 34) ! 0"
    by (simp add: zero_less_divide_iff)
  then show ?thesis by (simp add: stump_def)
qed

lemma stump_with_refit_scaler:
  assumes "scaler_fit (map (feature_row 10 example_series) [29, 30, 31, 32, 33, 34]) = Inr sc"
  shows "stump (scale_row sc (feature_row 10 example_series 34)) = 5"
proof -
  let ?X = "map (feature_row 10 example_series) [29, 30, 31, 32, 33, 34]"
  have X: "?X = feature_row 10 example_series 29 #
                map (feature_row 10 example_series) [30, 31, 32, 33, 34]"
    by simp
  from scaler_fit_lag_1[OF assms[unfolded X] feature_row_not_Nil] have
    ne: "scaler_mean sc \<noteq> []" "scaler_scale sc \<noteq> []" and
    m: "scaler_mean sc ! 0 = column_mean ?X 0" and
    s: "scaler_scale sc ! 0 = (if column_var ?X 0 = 0 then 1 else sqrt (column_var ?X 0))"
    unfolding X by simp_all
  have cm: "column_mean ?X 0 = 3" by (simp only: column_mean_def whole_column) simp
  have cv: "column_var ?X 0 = 31 / 3"
    by (simp only: column_var_def whole_column cm) (simp add: power2_eq_square)
  have m': "scaler_mean sc ! 0 = 3" unfolding m cm ..
  have s': "scaler_scale sc ! 0 = sqrt (31 / 3)" unfolding s cv by simp
  have "0 < sqrt (31 / 3 :: real)" by simp
  moreover have "scale_row sc (feature_row 10 example_series 34) ! 0 = (2 - 3) / sqrt (31 / 3)"
    unfolding scale_row_lag_1[OF feature_row_not_Nil ne] m' s' last_lag_1 ..
  ultimately have "scale_row sc (feature_row 10 example_series 34) ! 0 \<le> 0"
    by (simp add: divide_le_0_iff)
  then show ?thesis by (simp add: stump_def)
qed

text \<open>
  Claim C2, as stated, fails on the scaler. \<open>predict\<close> does not fit the scaler:
  it scales with the scaler that \<open>train\<close> fitted on the training partition.
  On the example series, with a forest of one split on the scaled first lag,
  the instance trained on the series forecasts 7 for the next day, while the
  rollout with a scaler fitted on the whole series forecasts 5: the mean of
  the first lag is 3/2 on the training partition and 3 on the whole series,
  and the first lag of the last row is 2.
\<close>

theorem scaler_refit_counterexample:
  "train_then_predict stump_library example_series (1 / 5) 1 = Some (Inr [7]) \<and>
   refit_rollout stump_library example_series (1 / 5) 1 = Some (Inr [5])"
proof -
  let ?data = "map (\<lambda>t. (example_series ! t, feature_row 10 example_series t))
                 [29, 30, 31, 32, 33, 34]"
  from example_train obtain sc out where
    sc: "scaler_fit (map (feature_row 10 example_series) [29, 30, 31, 32]) = Inr sc" and
    tr: "ml_train stump_library MLModel_init example_series (1 / 5) =
           Some (\<lparr>scaler = Some sc, model = Some stump\<rparr>, Inr out)"
    by blast
  have w: "length (scaler_mean sc) = 15"
    using scaler_fit_width[OF sc] by (simp add: length_feature_row)
  have ne: "?data \<noteq> []" by simp
  have l: "snd (last ?data) = feature_row 10 example_series 34" by simp
  have "ml_predict \<lparr>scaler = Some sc, model = Some stump\<rparr> example_series 1 =
          Some (Inr (rollout sc stump (snd (last ?data)) (nat 1)))"
    by (rule ml_predict_rollout[OF example_features ne _ _ w]) simp_all
  also have "rollout sc stump (snd (last ?data)) (nat 1) =
               [stump (scale_row sc (feature_row 10 example_series 34))]"
    unfolding l by (simp add: Let_def)
  finally have p: "ml_predict \<lparr>scaler = Some sc, model = Some stump\<rparr> example_series 1 =
      Some (Inr [7])"
    unfolding stump_with_train_scaler[OF sc] .
  from tr p have a: "train_then_predict stump_library example_series (1 / 5) 1 = Some (Inr [7])"
    by (simp add: train_then_predict_def)
  obtain sc2 where sc2: "scaler_fit (map snd ?data) = Inr sc2"
    by (cases "scaler_fit (map snd ?data)") (simp_all add: scaler_fit_def)
  then have sc2': "scaler_fit (map (feature_row 10 example_series) [29, 30, 31, 32, 33, 34]) =
      Inr sc2"
    by simp
  have "rollout sc2 stump (snd (last ?data)) (nat 1) =
          [stump (scale_row sc2 (feature_row 10 example_series 34))]"
    unfolding l by (simp add: Let_def)
  then have r: "rollout sc2 stump (snd (last ?data)) (nat 1) = [5]"
    unfolding stump_with_refit_scaler[OF sc2'] .
  from tr sc2 r have b: "refit_rollout stump_library example_series (1 / 5) 1 = Some (Inr [5])"
    unfolding refit_rollout_def example_features by (simp del: list.map last.simps)
  from a b show ?thesis ..
qed

text \<open>
  Claim C2, amended. After a \<open>train\<close> that succeeded, the instance holds the
  scaler fitted on the training partition of the feature rows of the training
  series, and the fitted forest. On every series of at least 30 positive
  prices, \<open>predict\<close> returns the recursive rollout from the last feature row
  with that scaler and that forest, one price per day of the horizon: the
  price of step \<open>k\<close> is the forest's prediction on the scaled row whose ten
  lags are the latest predictions, newest first, followed by the latest lags
  of the series, and whose rolling-window and momentum features are those of
  the last feature row.
\<close>

theorem predict_rolls_out_with_train_scaler:
  assumes "ml_train rf_fit self0 df0 test_size = Some (self, Inr out)"
    and "\<forall>p\<in>set df. 0 < p" and "30 \<le> length df"
  shows "\<exists>data0 sc f preds.
           create_features df0 10 = Some data0 \<and>
           scaler_fit (slice_to (py_int (real (length data0) * (1 - test_size)))
                         (map snd data0)) = Inr sc \<and>
           scaler self = Some sc \<and> model self = Some f \<and>
           ml_predict self df days = Some (Inr preds) \<and>
           preds = rollout sc f (feature_row 10 df (length df - 1)) (nat days) \<and>
           length preds = nat days \<and>
           (\<forall>k<nat days.
              preds ! k =
                f (scale_row sc
                     (take 10 (rev (take k preds) @ take 10 (feature_row 10 df (length df - 1))) @
                      drop 10 (feature_row 10 df (length df - 1)))))"
proof -
  from ml_train_result[OF assms(1)] obtain data0 sc f where
    d0: "create_features df0 10 = Some data0" and
    sc: "scaler_fit (slice_to (py_int (real (length data0) * (1 - test_size)))
                       (map snd data0)) = Inr sc" and
    st: "scaler self = Some sc" "model self = Some f"
    by blast
  from last_feature_row[OF assms(2,3)] obtain data where
    d: "create_features df 10 = Some data" "data \<noteq> []"
       "snd (last data) = feature_row 10 df (length df - 1)"
    by blast
  let ?row = "feature_row 10 df (length df - 1)"
  let ?preds = "rollout sc f ?row (nat days)"
  from ml_predict_rollout[OF d(1,2) st train_scaler_width[OF d0 sc]] d(3)
  have p: "ml_predict self df days = Some (Inr ?preds)" by simp
  have "10 \<le> length ?row" by (simp add: length_feature_row)
  then have "\<forall>k<nat days.
      ?preds ! k = f (scale_row sc (take 10 (rev (take k ?preds) @ take 10 ?row) @ drop 10 ?row))"
    using rollout_rows by blast
  with d0 sc st p length_rollout[of sc f ?row "nat days"] show ?thesis by blast
qed

theorem predict_rolls_out_with_train_scaler_witness:
  "list_all (\<lambda>p. 0 < p) example_series \<and> 30 \<le> length example_series \<and>
   (\<exists>self out data0 sc f preds.
      ml_train stump_library MLModel_init example_series (1 / 5) = Some (self, Inr out) \<and>
      create_features example_series 10 = Some data0 \<and>
      scaler_fit (slice_to (py_int (real (length data0) * (1 - 1 / 5))) (map snd data0)) =
        Inr sc \<and>
      scaler self = Some sc \<and> model self = Some f \<and>
      ml_predict self example_series 2 = Some (Inr preds) \<and>
      preds = rollout sc f (feature_row 10 example_series (length example_series - 1)) (nat 2) \<and>
      length preds = nat 2 \<and>
      (\<forall>k<nat 2.
         preds ! k =
           f (scale_row sc
                (take 10 (rev (take k preds) @
                          take 10 (feature_row 10 example_series (length example_series - 1))) @
                 drop 10 (feature_row 10 example_series (length example_series - 1))))))"
proof -
  from example_train obtain sc0 out where
    h1: "ml_train stump_library MLModel_init example_series (1 / 5) =
           Some (\<lparr>scaler = Some sc0, model = Some stump\<rparr>, Inr out)"
    by blast
  have h2: "\<forall>p\<in>set example_series. 0 < p" by (simp add: example_series_def nth_append)
  have h3: "30 \<le> length example_series" by (simp add: example_series_def nth_append)
  have h2': "list_all (\<lambda>p. 0 < p) example_series" using h2 by (simp add: list_all_iff)
  from predict_rolls_out_with_train_scaler[OF h1 h2 h3, of 2] h1 h2' h3
  show ?thesis by blast
qed

end
